theory Spec2Isabelle
  imports Complex_Main "HOL-Library.Sublist"
begin

section \<open>Conventions of the embedding\<close>

text \<open>
  The service under verification is \<^verbatim>\<open>app/services/vllm_integration_service.py\<close>.

  \<^item> A Python \<^verbatim>\<open>str\<close> is a \<^typ>\<open>string\<close>, one \<^typ>\<open>char\<close> per code point; the model is
    exact for ASCII text. Literals of the source that contain Korean text are kept as
    their UTF-8 bytes, which never occur inside an ASCII text.
  \<^item> A Python \<^verbatim>\<open>float\<close> is a \<^typ>\<open>real\<close>: the decimal constants of the source are
    taken as exact decimals.
  \<^item> Every \<^verbatim>\<open>raise\<close> of the source is a value: functions that can raise return a sum
    whose left injection is the exception.
  \<^item> Library calls whose result the source only inspects (\<^verbatim>\<open>ast.parse\<close>,
    \<^verbatim>\<open>json.loads\<close>, \<^verbatim>\<open>bytes.decode\<close>, \<^verbatim>\<open>hash\<close>, the HTTP probes) are parameters.
\<close>

section \<open>CodeQualityValidator\<close>

subsection \<open>Issues\<close>

text \<open>
  The validator reports issues as message strings, and \<^verbatim>\<open>suggest_fix\<close> recognises
  them again by a fixed phrase of the message. Each message of the source is one
  constructor, in the order in which the source introduces them: the four suspicious
  patterns of \<^verbatim>\<open>_check_basic_syntax\<close> (lines 91-94), the three messages of
  \<^verbatim>\<open>_check_bracket_balance\<close> (lines 115, 119, 122; the second carries the two
  characters, the third the stack length), the two of \<^verbatim>\<open>_check_quote_balance\<close>
  (lines 134, 136) and the two of \<^verbatim>\<open>_check_ast_validity\<close> (lines 147, 149), which
  carry the parser's text.
\<close>

datatype issue =
    BadPrintQuotes
  | BadCallQuotes
  | UnfinishedNestedCall
  | UnfinishedAssignedCall
  | ClosersExceed
  | TypeMismatch char char
  | Unclosed nat
  | OddSingleQuotes
  | OddDoubleQuotes
  | SyntaxErr string
  | ParseErr string

subsection \<open>Bracket balance (lines 103-124)\<close>

definition brackets :: "(char \<times> char) list" where
  "brackets = [(CHR ''('', CHR '')''), (CHR ''['', CHR '']''), (CHR ''{'', CHR ''}'')]"

definition is_opener :: "char \<Rightarrow> bool" where
  "is_opener c \<longleftrightarrow> c \<in> set (map fst brackets)"

definition is_closer :: "char \<Rightarrow> bool" where
  "is_closer c \<longleftrightarrow> c \<in> set (map snd brackets)"

text \<open>
  The \<^verbatim>\<open>for char in code\<close> loop. The Python list \<^verbatim>\<open>stack\<close> grows at its end; here
  the top of the stack is the head of the list. The \<^verbatim>\<open>break\<close> on a closing bracket
  that finds the stack empty leaves the loop with the empty stack; a type mismatch
  records an issue and goes on with the opener popped.
\<close>

fun bracket_loop :: "string \<Rightarrow> char list \<Rightarrow> issue list \<Rightarrow> issue list \<times> char list" where
  "bracket_loop [] stack issues = (issues, stack)"
| "bracket_loop (c # cs) stack issues =
     (if is_opener c then bracket_loop cs (c # stack) issues
      else if is_closer c then
        (case stack of
           [] \<Rightarrow> (issues @ [ClosersExceed], [])
         | last_open # stack' \<Rightarrow>
             if map_of brackets last_open \<noteq> Some c
             then bracket_loop cs stack' (issues @ [TypeMismatch last_open c])
             else bracket_loop cs stack' issues)
      else bracket_loop cs stack issues)"

definition check_bracket_balance :: "string \<Rightarrow> issue list" where
  "check_bracket_balance code =
     (case bracket_loop code [] [] of
        (issues, stack) \<Rightarrow>
          if stack \<noteq> [] then issues @ [Unclosed (length stack)] else issues)"

text \<open>
  Proper nesting, as a grammar over the bracket characters of a text: the empty word,
  a nested word between an opener and its own closer, and the concatenation of two
  nested words.
\<close>

inductive balanced :: "string \<Rightarrow> bool" where
  bal_empty: "balanced []"
| bal_wrap: "balanced w \<Longrightarrow> (l, r) \<in> set brackets \<Longrightarrow> balanced (l # w @ [r])"
| bal_app: "balanced v \<Longrightarrow> balanced w \<Longrightarrow> balanced (v @ w)"

code_pred balanced .

definition is_bracket :: "char \<Rightarrow> bool" where
  "is_bracket c \<longleftrightarrow> is_opener c \<or> is_closer c"

definition bracket_chars :: "string \<Rightarrow> string" where
  "bracket_chars code = filter is_bracket code"


section \<open>Python text primitives\<close>

text \<open>
  The characters for which \<^verbatim>\<open>str.isspace\<close> holds, which are also the characters that
  \<^verbatim>\<open>str.strip()\<close> removes and that \<^verbatim>\<open>\s\<close> matches, among the ASCII code points:
  9 to 13, 28 to 31 and 32.
\<close>

definition is_space :: "char \<Rightarrow> bool" where
  "is_space c \<longleftrightarrow>
     (let n = (of_char c :: nat) in (9 \<le> n \<and> n \<le> 13) \<or> (28 \<le> n \<and> n \<le> 32))"

text \<open>\<^verbatim>\<open>\w\<close> among the ASCII code points: letters, digits and the underscore.\<close>

definition is_word :: "char \<Rightarrow> bool" where
  "is_word c \<longleftrightarrow>
     (let n = (of_char c :: nat) in
        (48 \<le> n \<and> n \<le> 57) \<or> (65 \<le> n \<and> n \<le> 90) \<or> n = 95 \<or> (97 \<le> n \<and> n \<le> 122))"

definition is_alpha_us :: "char \<Rightarrow> bool" where
  "is_alpha_us c \<longleftrightarrow>
     (let n = (of_char c :: nat) in (65 \<le> n \<and> n \<le> 90) \<or> n = 95 \<or> (97 \<le> n \<and> n \<le> 122))"

definition newline :: char where
  "newline = CHR 0x0A"

definition strip :: "string \<Rightarrow> string" where
  "strip s = rev (dropWhile is_space (rev (dropWhile is_space s)))"

text \<open>\<^verbatim>\<open>s.split('\n')\<close>: the pieces between the newlines; never the empty list.\<close>

fun split_lines :: "string \<Rightarrow> string list" where
  "split_lines [] = [ [] ]"
| "split_lines (c # cs) =
     (if c = newline then [] # split_lines cs
      else (case split_lines cs of
              l # ls \<Rightarrow> (c # l) # ls
            | [] \<Rightarrow> [ [c] ]))"

text \<open>\<^verbatim>\<open>sep.join(parts)\<close>.\<close>

fun join :: "string \<Rightarrow> string list \<Rightarrow> string" where
  "join sep [] = []"
| "join sep [x] = x"
| "join sep (x # y # ys) = x @ sep @ join sep (y # ys)"

text \<open>\<^verbatim>\<open>sub in s\<close> for strings.\<close>

fun contains :: "string \<Rightarrow> string \<Rightarrow> bool" where
  "contains [] sub = (sub = [])"
| "contains (c # cs) sub = (prefix sub (c # cs) \<or> contains cs sub)"

text \<open>
  \<^verbatim>\<open>s.replace(old, '')\<close> for a non-empty \<^verbatim>\<open>old\<close>: the occurrences are removed from
  left to right, without overlap. The counter says how many characters of the
  occurrence found last are still to be dropped.
\<close>

fun remove_from :: "string \<Rightarrow> nat \<Rightarrow> string \<Rightarrow> string" where
  "remove_from old k [] = []"
| "remove_from old k (c # cs) =
     (if 0 < k then remove_from old (k - 1) cs
      else if prefix old (c # cs) then remove_from old (length old - 1) cs
      else c # remove_from old 0 cs)"

definition remove_all :: "string \<Rightarrow> string \<Rightarrow> string" where
  "remove_all old s = (if old = [] then s else remove_from old 0 s)"

section \<open>Regular expressions of the \<^verbatim>\<open>re\<close> module\<close>

text \<open>
  The patterns of the service use character classes, literal characters, greedy and
  lazy repetition of one character class, one capturing group, the anchors \<^verbatim>\<open>^\<close>,
  \<^verbatim>\<open>$\<close> and \<^verbatim>\<open>\Z\<close>, and one lookahead. A pattern is a term of \<^typ>\<open>string\<close>-matching
  constructors; the flags of a call are folded into the term: \<^verbatim>\<open>IGNORECASE\<close> in the
  class of a literal, \<^verbatim>\<open>DOTALL\<close> in the class of the dot, \<^verbatim>\<open>MULTILINE\<close> in the choice of
  the anchor.
\<close>

datatype regex =
    Chr "char \<Rightarrow> bool"
  | Eps
  | Seq regex regex
  | Alt regex regex
  | Greedy "char \<Rightarrow> bool"
  | Lazy "char \<Rightarrow> bool"
  | Group regex
  | Bol
  | BolM
  | Eol
  | EolM
  | EndZ
  | Ahead regex

text \<open>
  A position in the subject: the character before it (\<^const>\<open>None\<close> at the start of the
  subject), the rest of the subject, and what group 1 has captured so far.
\<close>

type_synonym mpos = "char option \<times> string \<times> string option"

fun greedy_star :: "(char \<Rightarrow> bool) \<Rightarrow> char option \<Rightarrow> string \<Rightarrow> (char option \<times> string) list" where
  "greedy_star p prev [] = [(prev, [])]"
| "greedy_star p prev (c # cs) =
     (if p c then greedy_star p (Some c) cs @ [(prev, c # cs)] else [(prev, c # cs)])"

fun lazy_star :: "(char \<Rightarrow> bool) \<Rightarrow> char option \<Rightarrow> string \<Rightarrow> (char option \<times> string) list" where
  "lazy_star p prev [] = [(prev, [])]"
| "lazy_star p prev (c # cs) =
     (prev, c # cs) # (if p c then lazy_star p (Some c) cs else [])"

text \<open>
  All the ways in which a pattern matches at a position, in the order in which the
  backtracking matcher of \<^verbatim>\<open>re\<close> tries them: the head of the list is the match that
  \<^verbatim>\<open>re\<close> reports.
\<close>

fun matches :: "regex \<Rightarrow> mpos \<Rightarrow> mpos list" where
  "matches (Chr p) (prev, rest, g) =
     (case rest of [] \<Rightarrow> [] | c # cs \<Rightarrow> if p c then [(Some c, cs, g)] else [])"
| "matches Eps pos = [pos]"
| "matches (Seq r1 r2) pos = concat (map (matches r2) (matches r1 pos))"
| "matches (Alt r1 r2) pos = matches r1 pos @ matches r2 pos"
| "matches (Greedy p) (prev, rest, g) = map (\<lambda>(pv, rs). (pv, rs, g)) (greedy_star p prev rest)"
| "matches (Lazy p) (prev, rest, g) = map (\<lambda>(pv, rs). (pv, rs, g)) (lazy_star p prev rest)"
| "matches (Group r) (prev, rest, g) =
     map (\<lambda>(pv, rs, _). (pv, rs, Some (take (length rest - length rs) rest)))
       (matches r (prev, rest, g))"
| "matches Bol (prev, rest, g) = (if prev = None then [(prev, rest, g)] else [])"
| "matches BolM (prev, rest, g) =
     (if prev = None \<or> prev = Some newline then [(prev, rest, g)] else [])"
| "matches Eol (prev, rest, g) =
     (if rest = [] \<or> rest = [newline] then [(prev, rest, g)] else [])"
| "matches EolM (prev, rest, g) =
     (if rest = [] \<or> hd rest = newline then [(prev, rest, g)] else [])"
| "matches EndZ (prev, rest, g) = (if rest = [] then [(prev, rest, g)] else [])"
| "matches (Ahead r) pos = (if matches r pos = [] then [] else [pos])"

text \<open>The match that \<^verbatim>\<open>re\<close> reports at a position: the rest after it, and group 1.\<close>

definition match_at :: "regex \<Rightarrow> char option \<Rightarrow> string \<Rightarrow> (string \<times> string option) option" where
  "match_at r prev s =
     (case matches r (prev, s, None) of
        [] \<Rightarrow> None
      | (_, rest, g) # _ \<Rightarrow> Some (rest, g))"

text \<open>\<^verbatim>\<open>re.search(pattern, s)\<close> as a truth value: some position has a match.\<close>

fun search_from :: "regex \<Rightarrow> char option \<Rightarrow> string \<Rightarrow> bool" where
  "search_from r prev [] = (match_at r prev [] \<noteq> None)"
| "search_from r prev (c # cs) = (match_at r prev (c # cs) \<noteq> None \<or> search_from r (Some c) cs)"

definition re_search :: "regex \<Rightarrow> string \<Rightarrow> bool" where
  "re_search r s = search_from r None s"

text \<open>
  \<^verbatim>\<open>re.findall(pattern, s)\<close>: the matches from left to right, without overlap; an item
  is group 1 when the pattern has a group and the whole match otherwise. The counter
  says how many characters of the match found last are still to be passed. No pattern
  of the service matches the empty string, so that the special treatment that \<^verbatim>\<open>re\<close>
  gives to empty matches never applies.
\<close>

definition found_item :: "string \<Rightarrow> string \<times> string option \<Rightarrow> string" where
  "found_item s m =
     (case snd m of Some g \<Rightarrow> g | None \<Rightarrow> take (length s - length (fst m)) s)"

fun findall_from :: "regex \<Rightarrow> char option \<Rightarrow> nat \<Rightarrow> string \<Rightarrow> string list" where
  "findall_from r prev k [] =
     (if 0 < k then []
      else (case match_at r prev [] of None \<Rightarrow> [] | Some m \<Rightarrow> [found_item [] m]))"
| "findall_from r prev k (c # cs) =
     (if 0 < k then findall_from r (Some c) (k - 1) cs
      else (case match_at r prev (c # cs) of
              None \<Rightarrow> findall_from r (Some c) 0 cs
            | Some m \<Rightarrow>
                found_item (c # cs) m
                  # findall_from r (Some c) (length (c # cs) - length (fst m) - 1) cs))"

definition re_findall :: "regex \<Rightarrow> string \<Rightarrow> string list" where
  "re_findall r s = findall_from r None 0 s"

text \<open>\<^verbatim>\<open>re.sub(pattern, repl, s)\<close> for a replacement text without group references.\<close>

fun sub_from :: "regex \<Rightarrow> string \<Rightarrow> char option \<Rightarrow> nat \<Rightarrow> string \<Rightarrow> string" where
  "sub_from r repl prev k [] =
     (if 0 < k then []
      else (case match_at r prev [] of None \<Rightarrow> [] | Some m \<Rightarrow> repl))"
| "sub_from r repl prev k (c # cs) =
     (if 0 < k then sub_from r repl (Some c) (k - 1) cs
      else (case match_at r prev (c # cs) of
              None \<Rightarrow> c # sub_from r repl (Some c) 0 cs
            | Some m \<Rightarrow>
                if length (fst m) = length (c # cs)
                then repl @ c # sub_from r repl (Some c) 0 cs
                else repl @ sub_from r repl (Some c) (length (c # cs) - length (fst m) - 1) cs))"

definition re_sub :: "regex \<Rightarrow> string \<Rightarrow> string \<Rightarrow> string" where
  "re_sub r repl s = sub_from r repl None 0 s"

text \<open>Pattern notation.\<close>

definition ch :: "char \<Rightarrow> regex" where
  "ch c = Chr (\<lambda>x. x = c)"

definition to_lower :: "char \<Rightarrow> char" where
  "to_lower c =
     (let n = (of_char c :: nat) in if 65 \<le> n \<and> n \<le> 90 then char_of (n + 32) else c)"

definition ch_i :: "char \<Rightarrow> regex" where
  "ch_i c = Chr (\<lambda>x. to_lower x = to_lower c)"

fun lit :: "string \<Rightarrow> regex" where
  "lit [] = Eps"
| "lit (c # cs) = Seq (ch c) (lit cs)"

fun lit_i :: "string \<Rightarrow> regex" where
  "lit_i [] = Eps"
| "lit_i (c # cs) = Seq (ch_i c) (lit_i cs)"

fun seqs :: "regex list \<Rightarrow> regex" where
  "seqs [] = Eps"
| "seqs (r # rs) = Seq r (seqs rs)"

definition plus :: "(char \<Rightarrow> bool) \<Rightarrow> regex" where
  "plus p = Seq (Chr p) (Greedy p)"

definition is_quote :: "char \<Rightarrow> bool" where
  "is_quote c \<longleftrightarrow> c = CHR 0x22 \<or> c = CHR 0x27"

definition any_char :: "char \<Rightarrow> bool" where
  "any_char c \<longleftrightarrow> True"

definition not_newline :: "char \<Rightarrow> bool" where
  "not_newline c \<longleftrightarrow> c \<noteq> newline"


section \<open>CodeQualityValidator, continued\<close>

subsection \<open>Suspicious patterns (lines 85-101)\<close>

definition not_quote :: "char \<Rightarrow> bool" where
  "not_quote c \<longleftrightarrow> \<not> is_quote c"

definition not_close_paren :: "char \<Rightarrow> bool" where
  "not_close_paren c \<longleftrightarrow> c \<noteq> CHR '')''"

definition not_equals :: "char \<Rightarrow> bool" where
  "not_equals c \<longleftrightarrow> c \<noteq> CHR ''=''"

text \<open>Line 91: \<^verbatim>\<open>print\(["\'][^"\']*["\']["\']\<close>.\<close>

definition pat_print_quotes :: regex where
  "pat_print_quotes =
     seqs [lit ''print('', Chr is_quote, Greedy not_quote, Chr is_quote, Chr is_quote]"

text \<open>Line 92: \<^verbatim>\<open>["\'][^"\']*\([^)]*["\']\<close>.\<close>

definition pat_call_quotes :: regex where
  "pat_call_quotes =
     seqs [Chr is_quote, Greedy not_quote, ch (CHR ''(''), Greedy not_close_paren, Chr is_quote]"

text \<open>Line 93: \<^verbatim>\<open>\([^)]*\([^)]*["\'][^"\']*$\<close>.\<close>

definition pat_nested_call :: regex where
  "pat_nested_call =
     seqs [ch (CHR ''(''), Greedy not_close_paren, ch (CHR ''(''), Greedy not_close_paren,
           Chr is_quote, Greedy not_quote, Eol]"

text \<open>Line 94: \<^verbatim>\<open>^[^=]*=[^=]*\([^)]*$\<close>.\<close>

definition pat_assigned_call :: regex where
  "pat_assigned_call =
     seqs [Bol, Greedy not_equals, ch (CHR ''=''), Greedy not_equals, ch (CHR ''(''),
           Greedy not_close_paren, Eol]"

definition suspicious_patterns :: "(regex \<times> issue) list" where
  "suspicious_patterns =
     [(pat_print_quotes, BadPrintQuotes),
      (pat_call_quotes, BadCallQuotes),
      (pat_nested_call, UnfinishedNestedCall),
      (pat_assigned_call, UnfinishedAssignedCall)]"

definition check_basic_syntax :: "string \<Rightarrow> issue list" where
  "check_basic_syntax code =
     map snd (filter (\<lambda>(pattern, issue_desc). re_search pattern code) suspicious_patterns)"

subsection \<open>Quote parity (lines 126-138)\<close>

definition check_quote_balance :: "string \<Rightarrow> issue list" where
  "check_quote_balance code =
     (let single_quotes = count_list code (CHR 0x27);
          double_quotes = count_list code (CHR 0x22)
      in (if single_quotes mod 2 \<noteq> 0 then [OddSingleQuotes] else [])
         @ (if double_quotes mod 2 \<noteq> 0 then [OddDoubleQuotes] else []))"

subsection \<open>Parsing with \<^verbatim>\<open>ast.parse\<close> (lines 140-151)\<close>

text \<open>
  What \<^verbatim>\<open>ast.parse(code)\<close> does: it returns, raises \<^verbatim>\<open>SyntaxError\<close> with a message,
  or raises another exception with a text. The parser of Python is a parameter of
  the validator.
\<close>

datatype parse_outcome = Parsed | RaisesSyntaxError string | RaisesOther string

definition check_ast_validity :: "(string \<Rightarrow> parse_outcome) \<Rightarrow> string \<Rightarrow> issue list" where
  "check_ast_validity ast_parse code =
     (case ast_parse code of
        Parsed \<Rightarrow> []
      | RaisesSyntaxError msg \<Rightarrow> [SyntaxErr msg]
      | RaisesOther txt \<Rightarrow> [ParseErr txt])"

subsection \<open>\<^verbatim>\<open>validate_code_chunk\<close> (lines 45-83)\<close>

record validator =
  validation_enabled :: bool
  strict_mode :: bool

text \<open>\<^verbatim>\<open>__init__\<close> (lines 41-43).\<close>

definition new_validator :: validator where
  "new_validator = \<lparr>validation_enabled = True, strict_mode = True\<rparr>"

text \<open>
  The result dictionary. The early return of line 48 has no \<^verbatim>\<open>code_length\<close> and no
  \<^verbatim>\<open>line_count\<close> key.
\<close>

record validation =
  valid :: bool
  issues :: "issue list"
  confidence :: real
  code_length :: "nat option"
  line_count :: "nat option"

definition validate_code_chunk ::
  "validator \<Rightarrow> (string \<Rightarrow> parse_outcome) \<Rightarrow> string \<Rightarrow> validation" where
  "validate_code_chunk self ast_parse code =
     (if \<not> validation_enabled self \<or> strip code = [] then
        \<lparr>valid = True, issues = [], confidence = 1.0, code_length = None, line_count = None\<rparr>
      else
        let issues0 = [];
            confidence0 = 1.0;
            syntax_issues = check_basic_syntax code;
            issues1 = (if syntax_issues \<noteq> [] then issues0 @ syntax_issues else issues0);
            confidence1 = (if syntax_issues \<noteq> [] then confidence0 - 0.3 else confidence0);
            balance_issues = check_bracket_balance code;
            issues2 = (if balance_issues \<noteq> [] then issues1 @ balance_issues else issues1);
            confidence2 = (if balance_issues \<noteq> [] then confidence1 - 0.2 else confidence1);
            quote_issues = check_quote_balance code;
            issues3 = (if quote_issues \<noteq> [] then issues2 @ quote_issues else issues2);
            confidence3 = (if quote_issues \<noteq> [] then confidence2 - 0.2 else confidence2);
            ast_issues = check_ast_validity ast_parse code;
            issues4 = (if ast_issues \<noteq> [] then issues3 @ ast_issues else issues3);
            confidence4 = (if ast_issues \<noteq> [] then confidence3 - 0.3 else confidence3)
        in \<lparr>valid = (length issues4 = 0),
            issues = issues4,
            confidence = max 0.0 confidence4,
            code_length = Some (length code),
            line_count = Some (count_list code newline + 1)\<rparr>)"

text \<open>
  The confidence as the specification words it: 1.0 minus 0.3 for syntax heuristics,
  0.2 for bracket imbalance, 0.2 for quote imbalance and 0.3 for a parse failure,
  clamped at 0.
\<close>

definition penalised_confidence :: "bool \<Rightarrow> bool \<Rightarrow> bool \<Rightarrow> bool \<Rightarrow> real" where
  "penalised_confidence syn bal quo par =
     max 0 (1 - (if syn then 0.3 else 0) - (if bal then 0.2 else 0)
              - (if quo then 0.2 else 0) - (if par then 0.3 else 0))"

subsection \<open>\<^verbatim>\<open>suggest_fix\<close> (lines 174-197)\<close>

text \<open>
  One round of the \<^verbatim>\<open>for issue in issues\<close> loop. The three phrases that the source
  looks for are those of the messages of lines 122, 134 and 136.
\<close>

fun fix_step :: "string \<Rightarrow> issue \<Rightarrow> string" where
  "fix_step fixed_code (Unclosed n) =
     (let open_count = count_list fixed_code (CHR ''('');
          close_count = count_list fixed_code (CHR '')'')
      in if open_count > close_count
         then fixed_code @ replicate (open_count - close_count) (CHR '')'')
         else fixed_code)"
| "fix_step fixed_code OddSingleQuotes =
     (if count_list fixed_code (CHR 0x27) mod 2 \<noteq> 0 then fixed_code @ [CHR 0x27] else fixed_code)"
| "fix_step fixed_code OddDoubleQuotes =
     (if count_list fixed_code (CHR 0x22) mod 2 \<noteq> 0 then fixed_code @ [CHR 0x22] else fixed_code)"
| "fix_step fixed_code _ = fixed_code"

definition suggest_fix :: "string \<Rightarrow> issue list \<Rightarrow> string" where
  "suggest_fix code reported = foldl fix_step code reported"


section \<open>ResponseParser\<close>

subsection \<open>Patterns and markers (lines 208-223, 255, 281, 332, 335)\<close>

definition fence :: string where
  "fence = [CHR 0x60, CHR 0x60, CHR 0x60]"

text \<open>
  Line 255, with \<^verbatim>\<open>DOTALL | IGNORECASE\<close>: \<^verbatim>\<open>```python\s*(.*?)\s*```\<close> and
  \<^verbatim>\<open>```\s*(.*?)\s*```\<close>.
\<close>

definition pat_python_block :: regex where
  "pat_python_block =
     seqs [lit_i (fence @ ''python''), Greedy is_space, Group (Lazy any_char), Greedy is_space,
           lit_i fence]"

definition pat_plain_block :: regex where
  "pat_plain_block =
     seqs [lit_i fence, Greedy is_space, Group (Lazy any_char), Greedy is_space, lit_i fence]"

text \<open>
  \<^verbatim>\<open>code_patterns[2:]\<close> (lines 212-215), with \<^verbatim>\<open>MULTILINE | IGNORECASE\<close>:
  \<^verbatim>\<open>def\s+\w+.*?(?=\n\n|\Z)\<close>, \<^verbatim>\<open>class\s+\w+.*?(?=\n\n|\Z)\<close>,
  \<^verbatim>\<open>print\s*\([^)]*\)\<close> and \<^verbatim>\<open>^\s*[a-zA-Z_]\w*\s*=.*\<close>.
\<close>

definition blank_line_or_end :: regex where
  "blank_line_or_end = Ahead (Alt (lit [newline, newline]) EndZ)"

definition pat_def :: regex where
  "pat_def = seqs [lit_i ''def'', plus is_space, plus is_word, Lazy not_newline, blank_line_or_end]"

definition pat_class :: regex where
  "pat_class =
     seqs [lit_i ''class'', plus is_space, plus is_word, Lazy not_newline, blank_line_or_end]"

definition pat_print :: regex where
  "pat_print =
     seqs [lit_i ''print'', Greedy is_space, ch (CHR ''(''), Greedy not_close_paren, ch (CHR '')'')]"

definition pat_assign :: regex where
  "pat_assign =
     seqs [BolM, Greedy is_space, Chr is_alpha_us, Greedy is_word, Greedy is_space, ch (CHR ''=''),
           Greedy not_newline]"

definition inline_patterns :: "regex list" where
  "inline_patterns = [pat_def, pat_class, pat_print, pat_assign]"

text \<open>
  Line 281, with \<^verbatim>\<open>DOTALL | IGNORECASE\<close>: \<^verbatim>\<open>```python.*?```\<close> and \<^verbatim>\<open>```.*?```\<close>.
\<close>

definition pat_python_region :: regex where
  "pat_python_region = seqs [lit_i (fence @ ''python''), Lazy any_char, lit_i fence]"

definition pat_plain_region :: regex where
  "pat_plain_region = seqs [lit_i fence, Lazy any_char, lit_i fence]"

text \<open>Line 332, with \<^verbatim>\<open>MULTILINE\<close>: \<^verbatim>\<open>^[#*\-=]+\s*\<close>. Line 335: \<^verbatim>\<open>\n\s*\n\s*\n\<close>.\<close>

definition is_marker_char :: "char \<Rightarrow> bool" where
  "is_marker_char c \<longleftrightarrow> c = CHR ''#'' \<or> c = CHR ''*'' \<or> c = CHR ''-'' \<or> c = CHR ''=''"

definition pat_leading_marks :: regex where
  "pat_leading_marks = seqs [BolM, plus is_marker_char, Greedy is_space]"

definition pat_blank_lines :: regex where
  "pat_blank_lines =
     seqs [ch newline, Greedy is_space, ch newline, Greedy is_space, ch newline]"

text \<open>
  \<^verbatim>\<open>explanation_markers\<close> (lines 218-223): eight Korean phrases, as their UTF-8 bytes,
  and six English ones.
\<close>

definition explanation_markers :: "string list" where
  "explanation_markers =
     [ [CHR 0xEC, CHR 0x9D, CHR 0xB4] @ '' '' @ [CHR 0xEC, CHR 0xBD, CHR 0x94, CHR 0xEB, CHR 0x93,
        CHR 0x9C, CHR 0xEB, CHR 0x8A, CHR 0x94],
      [CHR 0xEC, CHR 0x84, CHR 0xA4, CHR 0xEB, CHR 0xAA, CHR 0x85] @ '':'',
      [CHR 0xEB, CHR 0x8B, CHR 0xA4, CHR 0xEC, CHR 0x9D, CHR 0x8C, CHR 0xEA, CHR 0xB3, CHR 0xBC]
        @ '' '' @ [CHR 0xEA, CHR 0xB0, CHR 0x99, CHR 0xEC, CHR 0x9D, CHR 0xB4],
      [CHR 0xEC, CHR 0x9E, CHR 0x91, CHR 0xEB, CHR 0x8F, CHR 0x99] @ '' ''
        @ [CHR 0xEB, CHR 0xB0, CHR 0xA9, CHR 0xEC, CHR 0x8B, CHR 0x9D] @ '':'',
      [CHR 0xEC, CHR 0xA3, CHR 0xBC, CHR 0xEC, CHR 0x9A, CHR 0x94] @ '' ''
        @ [CHR 0xEA, CHR 0xB8, CHR 0xB0, CHR 0xEB, CHR 0x8A, CHR 0xA5] @ '':'',
      [CHR 0xEC, CHR 0x82, CHR 0xAC, CHR 0xEC, CHR 0x9A, CHR 0xA9, CHR 0xEB, CHR 0xB2, CHR 0x95]
        @ '':'',
      [CHR 0xEC, CHR 0x98, CHR 0x88, CHR 0xEC, CHR 0x8B, CHR 0x9C] @ '':'',
      [CHR 0xEC, CHR 0xB0, CHR 0xB8, CHR 0xEA, CHR 0xB3, CHR 0xA0] @ '':'',
      ''This code'', ''Explanation:'', ''How it works:'', ''Usage:'', ''Example:'', ''Note:'']"

subsection \<open>\<^verbatim>\<open>_extract_code_blocks\<close> (lines 250-273)\<close>

text \<open>\<^verbatim>\<open>[match.strip() for match in matches if match.strip()]\<close>.\<close>

definition stripped_matches :: "regex \<Rightarrow> string \<Rightarrow> string list" where
  "stripped_matches pattern text =
     map strip (filter (\<lambda>m. strip m \<noteq> []) (re_findall pattern text))"

text \<open>
  The loop of lines 266-271: a block is kept when it is not empty, not yet among the
  kept ones, and at least three characters long.
\<close>

fun unique_blocks_loop :: "string list \<Rightarrow> string list \<Rightarrow> string list" where
  "unique_blocks_loop [] unique_blocks = unique_blocks"
| "unique_blocks_loop (block # rest) unique_blocks =
     (if block \<noteq> [] \<and> block \<notin> set unique_blocks
      then (if length block \<ge> 3
            then unique_blocks_loop rest (unique_blocks @ [block])
            else unique_blocks_loop rest unique_blocks)
      else unique_blocks_loop rest unique_blocks)"

definition extract_code_blocks :: "string \<Rightarrow> string list" where
  "extract_code_blocks text =
     (let code_blocks = concat (map (\<lambda>p. stripped_matches p text) [pat_python_block, pat_plain_block]);
          code_blocks' =
            (if code_blocks = []
             then concat (map (\<lambda>p. stripped_matches p text) inline_patterns)
             else code_blocks)
      in unique_blocks_loop code_blocks' [])"

subsection \<open>\<^verbatim>\<open>_extract_explanation\<close> (lines 275-306)\<close>

definition code_like :: "string list" where
  "code_like = [''def '', ''class '', ''import '', ''print('', ''='']"

definition keeps_line :: "string \<Rightarrow> bool" where
  "keeps_line line =
     (let is_explanation = (\<exists>marker \<in> set explanation_markers. contains line marker);
          is_not_code = (\<not> (\<exists>pattern \<in> set code_like. contains line pattern))
      in is_explanation \<or> (is_not_code \<and> length line > 10))"

definition extract_explanation :: "string \<Rightarrow> string list \<Rightarrow> string" where
  "extract_explanation text code_blocks =
     (let explanation_text = re_sub pat_plain_region [] (re_sub pat_python_region [] text);
          explanation_text' = foldl (\<lambda>t block. remove_all block t) explanation_text code_blocks;
          lines = split_lines explanation_text';
          explanation_lines = filter (\<lambda>line. line \<noteq> [] \<and> keeps_line line) (map strip lines)
      in join [newline] explanation_lines)"

subsection \<open>\<^verbatim>\<open>_merge_code_blocks\<close> (lines 308-324)\<close>

fun first_occurrences :: "string list \<Rightarrow> string list \<Rightarrow> string list" where
  "first_occurrences [] unique_blocks = unique_blocks"
| "first_occurrences (block # rest) unique_blocks =
     (if block \<notin> set unique_blocks
      then first_occurrences rest (unique_blocks @ [block])
      else first_occurrences rest unique_blocks)"

definition merge_code_blocks :: "string list \<Rightarrow> string" where
  "merge_code_blocks code_blocks =
     (if code_blocks = [] then []
      else let unique_blocks = first_occurrences code_blocks []
           in if length unique_blocks = 1 then hd unique_blocks
              else join [newline, newline] unique_blocks)"

subsection \<open>\<^verbatim>\<open>_clean_explanation\<close> (lines 326-340)\<close>

definition clean_explanation :: "string \<Rightarrow> string" where
  "clean_explanation explanation =
     (if explanation = [] then []
      else strip (re_sub pat_blank_lines [newline, newline]
                    (re_sub pat_leading_marks [] explanation)))"

subsection \<open>\<^verbatim>\<open>_calculate_confidence\<close> (lines 342-359)\<close>

definition calculate_confidence :: "string \<Rightarrow> string \<Rightarrow> real" where
  "calculate_confidence explanation code =
     (let confidence0 = 0.5;
          confidence1 = (if code \<noteq> [] \<and> length code > 10 then confidence0 + 0.3 else confidence0);
          confidence2 =
            (if explanation \<noteq> [] \<and> length explanation > 20 then confidence1 + 0.2 else confidence1);
          confidence3 =
            (if explanation \<noteq> [] \<and> code \<noteq> []
                \<and> (\<exists>marker \<in> set explanation_markers. contains explanation marker)
             then confidence2 + 0.1 else confidence2)
      in min 1.0 confidence3)"

subsection \<open>\<^verbatim>\<open>parse_response\<close> (lines 225-248)\<close>

record parse_metadata =
  code_blocks_found :: nat
  has_explanation :: bool
  parsing_confidence :: real

text \<open>
  The result dictionary: the keys \<^verbatim>\<open>explanation\<close> and \<^verbatim>\<open>code\<close>, and the key
  \<^verbatim>\<open>metadata\<close> when it is there.
\<close>

record parsed_response =
  explanation :: string
  code :: string
  metadata :: "parse_metadata option"

definition parse_response :: "string \<Rightarrow> parsed_response" where
  "parse_response raw_response =
     (if raw_response = [] \<or> strip raw_response = [] then
        \<lparr>explanation = [], code = [], metadata = None\<rparr>
      else
        let code_blocks = extract_code_blocks raw_response;
            explanation_text = extract_explanation raw_response code_blocks;
            final_code = merge_code_blocks code_blocks;
            final_explanation = clean_explanation explanation_text
        in \<lparr>explanation = final_explanation,
            code = final_code,
            metadata = Some \<lparr>code_blocks_found = length code_blocks,
                             has_explanation = (final_explanation \<noteq> []),
                             parsing_confidence = calculate_confidence final_explanation final_code\<rparr>\<rparr>)"


section \<open>VLLMIntegrationService\<close>

text \<open>The exceptions that the service meets.\<close>

datatype exn =
    ConnectionError
  | AttributeError
  | TypeError
  | KeyError string
  | TransportError string
  | HookError string

subsection \<open>Connection (lines 369-453)\<close>

record service =
  has_session :: bool
  is_connected :: bool
  connection_retries :: nat
  max_retries :: nat

text \<open>\<^verbatim>\<open>__init__\<close> (lines 372-375).\<close>

definition new_service :: service where
  "new_service =
     \<lparr>has_session = False, is_connected = False, connection_retries = 0, max_retries = 3\<rparr>"

text \<open>
  What one \<^verbatim>\<open>GET /health\<close> does: it answers with a status, or the request raises.
  The backend is the function that gives the outcome of each probe, counted from 0.
  The world records how many probes were made and the seconds of every
  \<^verbatim>\<open>asyncio.sleep\<close>, in order.
\<close>

datatype probe = Status nat | ProbeRaises string

record world =
  probes_made :: nat
  slept :: "nat list"

definition new_world :: world where
  "new_world = \<lparr>probes_made = 0, slept = []\<rparr>"

text \<open>
  \<^verbatim>\<open>connect\<close>: the session is created when there is none; a probe that answers 200
  sets the flag and resets the counter; any other outcome reaches the handler of
  line 444, which counts the failure and either sleeps \<^verbatim>\<open>2 ** connection_retries\<close>
  seconds and calls \<^verbatim>\<open>connect\<close> again, or raises \<^verbatim>\<open>ConnectionError\<close>.
\<close>

function connect :: "(nat \<Rightarrow> probe) \<Rightarrow> service \<Rightarrow> world \<Rightarrow> exn option \<times> service \<times> world" where
  "connect backend self w =
     (if backend (probes_made w) = Status 200 then
        (None,
         self\<lparr>has_session := True, is_connected := True, connection_retries := 0\<rparr>,
         w\<lparr>probes_made := probes_made w + 1\<rparr>)
      else if connection_retries self + 1 < max_retries self then
        connect backend
          (self\<lparr>has_session := True, is_connected := False,
                connection_retries := connection_retries self + 1\<rparr>)
          (w\<lparr>probes_made := probes_made w + 1,
             slept := slept w @ [2 ^ (connection_retries self + 1)]\<rparr>)
      else
        (Some ConnectionError,
         self\<lparr>has_session := True, is_connected := False,
               connection_retries := connection_retries self + 1\<rparr>,
         w\<lparr>probes_made := probes_made w + 1\<rparr>))"
  by pat_completeness auto
termination
  by (relation "measure (\<lambda>(backend, self, w). max_retries self - connection_retries self)") auto

declare connect.simps [simp del]

subsection \<open>Requests, preferences and payloads\<close>

text \<open>
  \<^verbatim>\<open>ModelType\<close> is declared in \<^verbatim>\<open>app/schemas/code_generation.py\<close>; its members are
  the keys of \<^verbatim>\<open>model_mapping\<close> (lines 387-396).
\<close>

datatype model_kind =
    CODE_GENERATION
  | CODE_COMPLETION
  | CODE_EXPLANATION
  | CODE_REVIEW
  | BUG_FIX
  | CODE_OPTIMIZATION
  | UNIT_TEST_GENERATION
  | DOCUMENTATION

text \<open>\<^verbatim>\<open>VLLMModelType\<close> (lines 29-34): string constants.\<close>

definition AUTOCOMPLETE :: string where "AUTOCOMPLETE = ''autocomplete''"
definition PROMPT :: string where "PROMPT = ''prompt''"
definition COMMENT :: string where "COMMENT = ''comment''"
definition ERROR_FIX :: string where "ERROR_FIX = ''error_fix''"

fun model_mapping :: "model_kind \<Rightarrow> string" where
  "model_mapping CODE_GENERATION = PROMPT"
| "model_mapping CODE_COMPLETION = AUTOCOMPLETE"
| "model_mapping CODE_EXPLANATION = COMMENT"
| "model_mapping CODE_REVIEW = COMMENT"
| "model_mapping BUG_FIX = ERROR_FIX"
| "model_mapping CODE_OPTIMIZATION = PROMPT"
| "model_mapping UNIT_TEST_GENERATION = PROMPT"
| "model_mapping DOCUMENTATION = COMMENT"

text \<open>
  \<^verbatim>\<open>CodeGenerationRequest\<close>, also declared in the schema module: the attributes that
  the service reads. An optional attribute that is unset is \<^const>\<open>None\<close>.
\<close>

record request =
  req_prompt :: string
  req_context :: "string option"
  req_model_type :: model_kind
  req_max_tokens :: "int option"
  req_temperature :: "real option"
  req_top_p :: "real option"

text \<open>
  The preference dictionary, as the list of its items; the values that the service
  compares are strings. \<^verbatim>\<open>d.get(key, fallback)\<close>:
\<close>

type_synonym prefs = "(string \<times> string) list"

definition get_or :: "prefs \<Rightarrow> string \<Rightarrow> string \<Rightarrow> string" where
  "get_or d key fallback = (case map_of d key of Some v \<Rightarrow> v | None \<Rightarrow> fallback)"

text \<open>
  \<^verbatim>\<open>user_preferences\<close> as a condition: neither \<^verbatim>\<open>None\<close> nor the empty dictionary.
  \<^verbatim>\<open>user_preferences or {}\<close>.
\<close>

definition given :: "prefs option \<Rightarrow> bool" where
  "given user_preferences \<longleftrightarrow> (case user_preferences of None \<Rightarrow> False | Some d \<Rightarrow> d \<noteq> [])"

definition or_empty :: "prefs option \<Rightarrow> prefs" where
  "or_empty user_preferences = (case user_preferences of None \<Rightarrow> [] | Some d \<Rightarrow> d)"

text \<open>
  The complexity tier comes from the adaptive buffer, which is not part of the
  sources; the service reads its \<^verbatim>\<open>value\<close>.
\<close>

datatype complexity = Simple | Medium | Complex

fun complexity_value :: "complexity \<Rightarrow> string" where
  "complexity_value Simple = ''simple''"
| "complexity_value Medium = ''medium''"
| "complexity_value Complex = ''complex''"

text \<open>\<^verbatim>\<open>int(x)\<close> for a float: truncation towards zero.\<close>

definition py_int :: "real \<Rightarrow> int" where
  "py_int x = (if 0 \<le> x then \<lfloor>x\<rfloor> else \<lceil>x\<rceil>)"

record payload =
  user_id :: int
  prompt :: string
  model_type :: string
  user_select_options :: prefs
  temperature :: real
  max_tokens :: int
  top_p :: real

subsection \<open>\<^verbatim>\<open>_build_enhanced_prompt\<close> (lines 463-499)\<close>

definition system_prompt :: string where
  "system_prompt =
     [CHR 0xEB, CHR 0x8B, CHR 0xB9, CHR 0xEC, CHR 0x8B, CHR 0xA0, CHR 0xEC, CHR 0x9D, CHR 0x80]
     @ '' '' @ [CHR 0xEA, CHR 0xB3, CHR 0xA0, CHR 0xED, CHR 0x92, CHR 0x88, CHR 0xEC, CHR 0xA7, CHR 0x88]
     @ '' Python '' @ [CHR 0xEC, CHR 0xBD, CHR 0x94, CHR 0xEB, CHR 0x93, CHR 0x9C, CHR 0xEB, CHR 0xA5, CHR 0xBC]
     @ '' '' @ [CHR 0xEC, CHR 0x83, CHR 0x9D, CHR 0xEC, CHR 0x84, CHR 0xB1, CHR 0xED, CHR 0x95, CHR 0x98,
                CHR 0xEB, CHR 0x8A, CHR 0x94]
     @ '' AI '' @ [CHR 0xEC, CHR 0xBD, CHR 0x94, CHR 0xEB, CHR 0x94, CHR 0xA9]
     @ '' '' @ [CHR 0xEC, CHR 0x96, CHR 0xB4, CHR 0xEC, CHR 0x8B, CHR 0x9C, CHR 0xEC, CHR 0x8A, CHR 0xA4,
                CHR 0xED, CHR 0x84, CHR 0xB4, CHR 0xED, CHR 0x8A, CHR 0xB8, CHR 0xEC, CHR 0x9E, CHR 0x85,
                CHR 0xEB, CHR 0x8B, CHR 0x88, CHR 0xEB, CHR 0x8B, CHR 0xA4] @ ''.''
     @ [newline]
     @ [CHR 0xEB, CHR 0x8B, CHR 0xA4, CHR 0xEC, CHR 0x9D, CHR 0x8C]
     @ '' '' @ [CHR 0xEA, CHR 0xB7, CHR 0x9C, CHR 0xEC, CHR 0xB9, CHR 0x99, CHR 0xEC, CHR 0x9D, CHR 0x84]
     @ '' '' @ [CHR 0xEB, CHR 0x94, CHR 0xB0, CHR 0xEB, CHR 0x9D, CHR 0xBC]
     @ '' '' @ [CHR 0xEC, CHR 0xBD, CHR 0x94, CHR 0xEB, CHR 0x93, CHR 0x9C, CHR 0xEB, CHR 0xA5, CHR 0xBC]
     @ '' '' @ [CHR 0xEC, CHR 0x83, CHR 0x9D, CHR 0xEC, CHR 0x84, CHR 0xB1, CHR 0xED, CHR 0x95, CHR 0xB4,
                CHR 0xEC, CHR 0xA3, CHR 0xBC, CHR 0xEC, CHR 0x84, CHR 0xB8, CHR 0xEC, CHR 0x9A, CHR 0x94] @ '':''
     @ [newline]
     @ ''1. '' @ [CHR 0xEC, CHR 0x99, CHR 0x84, CHR 0xEC, CHR 0xA0, CHR 0x84, CHR 0xED, CHR 0x95, CHR 0x98,
                  CHR 0xEA, CHR 0xB3, CHR 0xA0]
     @ '' '' @ [CHR 0xEC, CHR 0x8B, CHR 0xA4, CHR 0xED, CHR 0x96, CHR 0x89]
     @ '' '' @ [CHR 0xEA, CHR 0xB0, CHR 0x80, CHR 0xEB, CHR 0x8A, CHR 0xA5, CHR 0xED, CHR 0x95, CHR 0x9C]
     @ '' '' @ [CHR 0xEC, CHR 0xBD, CHR 0x94, CHR 0xEB, CHR 0x93, CHR 0x9C, CHR 0xEB, CHR 0xA5, CHR 0xBC]
     @ '' '' @ [CHR 0xEC, CHR 0x9E, CHR 0x91, CHR 0xEC, CHR 0x84, CHR 0xB1]
     @ [newline]
     @ ''2. '' @ [CHR 0xEC, CHR 0xA0, CHR 0x81, CHR 0xEC, CHR 0xA0, CHR 0x88, CHR 0xED, CHR 0x95, CHR 0x9C]
     @ '' '' @ [CHR 0xEC, CHR 0xA3, CHR 0xBC, CHR 0xEC, CHR 0x84, CHR 0x9D, CHR 0xEA, CHR 0xB3, CHR 0xBC]
     @ '' '' @ [CHR 0xEB, CHR 0xAC, CHR 0xB8, CHR 0xEC, CHR 0x84, CHR 0x9C, CHR 0xED, CHR 0x99, CHR 0x94]
     @ '' '' @ [CHR 0xED, CHR 0x8F, CHR 0xAC, CHR 0xED, CHR 0x95, CHR 0xA8]
     @ [newline]
     @ ''3. '' @ [CHR 0xED, CHR 0x8C, CHR 0x8C, CHR 0xEC, CHR 0x9D, CHR 0xB4, CHR 0xEC, CHR 0x8D, CHR 0xAC]
     @ '' '' @ [CHR 0xEC, CHR 0xB5, CHR 0x9C, CHR 0xEC, CHR 0x84, CHR 0xA0, CHR 0xEC, CHR 0x9D, CHR 0x98]
     @ '' '' @ [CHR 0xEA, CHR 0xB4, CHR 0x80, CHR 0xEB, CHR 0xA1, CHR 0x80]
     @ ''(best practices) '' @ [CHR 0xEC, CHR 0xA4, CHR 0x80, CHR 0xEC, CHR 0x88, CHR 0x98]
     @ [newline]
     @ ''4. '' @ [CHR 0xEA, CHR 0xB0, CHR 0x84, CHR 0xEA, CHR 0xB2, CHR 0xB0, CHR 0xED, CHR 0x95, CHR 0x98,
                  CHR 0xEA, CHR 0xB3, CHR 0xA0]
     @ '' '' @ [CHR 0xEC, CHR 0x9D, CHR 0xBD, CHR 0xEA, CHR 0xB8, CHR 0xB0]
     @ '' '' @ [CHR 0xEC, CHR 0x89, CHR 0xAC, CHR 0xEC, CHR 0x9A, CHR 0xB4]
     @ '' '' @ [CHR 0xEC, CHR 0xBD, CHR 0x94, CHR 0xEB, CHR 0x93, CHR 0x9C]
     @ '' '' @ [CHR 0xEC, CHR 0x9E, CHR 0x91, CHR 0xEC, CHR 0x84, CHR 0xB1]"

text \<open>The fixed texts around the context (line 477), the request and the code (lines 482-485).\<close>

definition context_header :: string where
  "context_header =
     [newline, newline, CHR 0xEA, CHR 0xB8, CHR 0xB0, CHR 0xEC, CHR 0xA1, CHR 0xB4] @ '' ''
     @ [CHR 0xEC, CHR 0xBD, CHR 0x94, CHR 0xEB, CHR 0x93, CHR 0x9C] @ '' ''
     @ [CHR 0xEC, CHR 0xBB, CHR 0xA8, CHR 0xED, CHR 0x85, CHR 0x8D, CHR 0xEC, CHR 0x8A, CHR 0xA4,
        CHR 0xED, CHR 0x8A, CHR 0xB8] @ '':'' @ [newline] @ fence @ ''python'' @ [newline]"

definition request_header :: string where
  "request_header =
     [newline, newline, CHR 0xEC, CHR 0x82, CHR 0xAC, CHR 0xEC, CHR 0x9A, CHR 0xA9, CHR 0xEC,
      CHR 0x9E, CHR 0x90] @ '' '' @ [CHR 0xEC, CHR 0x9A, CHR 0x94, CHR 0xEC, CHR 0xB2, CHR 0xAD] @ '': ''"

definition code_header :: string where
  "code_header =
     [newline, newline] @ ''Python '' @ [CHR 0xEC, CHR 0xBD, CHR 0x94, CHR 0xEB, CHR 0x93, CHR 0x9C]
     @ '':'' @ [newline] @ fence @ ''python''"

text \<open>
  \<^verbatim>\<open>build_personalized_prompt\<close> is imported at call time from the API layer, which
  is not part of the sources: either the import fails, or the function is there and
  returns a prompt or raises.
\<close>

datatype personalizer = ImportFails | Imported "string \<Rightarrow> prefs \<Rightarrow> exn + string"

definition build_enhanced_prompt :: "personalizer \<Rightarrow> request \<Rightarrow> prefs option \<Rightarrow> exn + string" where
  "build_enhanced_prompt hook req user_preferences =
     (let context_section =
            (case req_context req of
               None \<Rightarrow> []
             | Some ctx \<Rightarrow>
                 if ctx \<noteq> [] \<and> strip ctx \<noteq> [] then context_header @ ctx @ [newline] @ fence else []);
          base_prompt = system_prompt @ request_header @ req_prompt req @ context_section @ code_header
      in if given user_preferences then
           (case hook of
              Imported build_personalized_prompt \<Rightarrow>
                build_personalized_prompt base_prompt (or_empty user_preferences)
            | ImportFails \<Rightarrow> Inr base_prompt)
         else Inr base_prompt)"

subsection \<open>\<^verbatim>\<open>_prepare_vllm_payload\<close> (lines 507-572)\<close>

text \<open>
  The three decoding parameters of lines 511-550, as the source computes them: the
  variables \<^verbatim>\<open>base_temperature\<close>, \<^verbatim>\<open>base_max_tokens\<close> and \<^verbatim>\<open>base_top_p\<close> are
  reassigned by the preference branches, and the complexity branches read them.
\<close>

definition decoding_parameters :: "prefs option \<Rightarrow> complexity \<Rightarrow> real \<times> int \<times> real" where
  "decoding_parameters user_preferences tier =
     (let base_temperature = 0.3;
          base_max_tokens = (400 :: int);
          base_top_p = 0.8;
          skill_level = get_or (or_empty user_preferences) ''skill_level'' ''intermediate'';
          code_style = get_or (or_empty user_preferences) ''code_style'' ''standard'';
          safety_level = get_or (or_empty user_preferences) ''safety_level'' ''standard'';
          base_max_tokens =
            (if given user_preferences then
               (if skill_level = ''beginner'' then py_int (real_of_int base_max_tokens * 1.5)
                else if skill_level = ''expert'' then py_int (real_of_int base_max_tokens * 0.8)
                else base_max_tokens)
             else base_max_tokens);
          base_temperature =
            (if given user_preferences then
               (if code_style = ''concise'' then max (base_temperature * 0.8) 0.1
                else if code_style = ''detailed'' then min (base_temperature * 1.2) 0.4
                else base_temperature)
             else base_temperature);
          base_top_p =
            (if given user_preferences then
               (if safety_level = ''enhanced'' then max (base_top_p * 0.9) 0.7
                else if safety_level = ''minimal'' then min (base_top_p * 1.1) 0.95
                else base_top_p)
             else base_top_p)
      in if complexity_value tier = ''simple'' then
           (base_temperature, base_max_tokens, base_top_p)
         else if complexity_value tier = ''medium'' then
           (min (base_temperature * 1.3) 0.5,
            py_int (real_of_int base_max_tokens * 1.5),
            min (base_top_p * 1.1) 0.9)
         else
           (min (base_temperature * 1.6) 0.7,
            py_int (real_of_int base_max_tokens * 2.0),
            min (base_top_p * 1.2) 0.95))"

text \<open>\<^verbatim>\<open>hash\<close> of a string is a parameter: Python seeds it afresh in every process.\<close>

definition prepare_vllm_payload ::
  "(string \<Rightarrow> int) \<Rightarrow> personalizer \<Rightarrow> request \<Rightarrow> complexity \<Rightarrow> string \<Rightarrow> prefs option
     \<Rightarrow> exn + payload" where
  "prepare_vllm_payload py_hash hook req tier uid user_preferences =
     (case decoding_parameters user_preferences tier of
        (temperature', max_tokens', top_p') \<Rightarrow>
          (case build_enhanced_prompt hook req user_preferences of
             Inl e \<Rightarrow> Inl e
           | Inr enhanced_prompt \<Rightarrow>
               Inr \<lparr>user_id = py_hash (if uid \<noteq> [] then uid else ''anonymous'') mod 1000000,
                    prompt = enhanced_prompt,
                    model_type = model_mapping (req_model_type req),
                    user_select_options = or_empty user_preferences,
                    temperature = temperature',
                    max_tokens = max_tokens',
                    top_p = top_p'\<rparr>))"

text \<open>
  The layered rule as the specification words it: a baseline, then one adjustment
  per preference, then the overlay of the complexity tier, each a function on the
  triple of temperature, token budget and nucleus threshold.
\<close>

definition spec_baseline :: "real \<times> real \<times> real" where
  "spec_baseline = (0.3, 400, 0.8)"

definition spec_skill :: "string \<Rightarrow> real \<times> real \<times> real \<Rightarrow> real \<times> real \<times> real" where
  "spec_skill level = (\<lambda>(t, n, p).
     if level = ''beginner'' then (t, n * 1.5, p)
     else if level = ''expert'' then (t, n * 0.8, p)
     else (t, n, p))"

definition spec_style :: "string \<Rightarrow> real \<times> real \<times> real \<Rightarrow> real \<times> real \<times> real" where
  "spec_style style = (\<lambda>(t, n, p).
     if style = ''concise'' then (max 0.1 (t * 0.8), n, p)
     else if style = ''detailed'' then (min 0.4 (t * 1.2), n, p)
     else (t, n, p))"

definition spec_safety :: "string \<Rightarrow> real \<times> real \<times> real \<Rightarrow> real \<times> real \<times> real" where
  "spec_safety level = (\<lambda>(t, n, p).
     if level = ''enhanced'' then (t, n, max 0.7 (p * 0.9))
     else if level = ''minimal'' then (t, n, min 0.95 (p * 1.1))
     else (t, n, p))"

fun spec_overlay :: "complexity \<Rightarrow> real \<times> real \<times> real \<Rightarrow> real \<times> real \<times> real" where
  "spec_overlay Simple (t, n, p) = (t, n, p)"
| "spec_overlay Medium (t, n, p) = (min 0.5 (t * 1.3), n * 1.5, min 0.9 (p * 1.1))"
| "spec_overlay Complex (t, n, p) = (min 0.7 (t * 1.6), n * 2.0, min 0.95 (p * 1.2))"

definition spec_parameters :: "prefs option \<Rightarrow> complexity \<Rightarrow> real \<times> real \<times> real" where
  "spec_parameters user_preferences tier =
     (let d = or_empty user_preferences
      in spec_overlay tier
           (spec_safety (get_or d ''safety_level'' ''standard'')
              (spec_style (get_or d ''code_style'' ''standard'')
                 (spec_skill (get_or d ''skill_level'' ''intermediate'') spec_baseline))))"


subsection \<open>Stream events and payloads of the wire protocol\<close>

text \<open>What \<^verbatim>\<open>json.loads\<close> returns. An object is the list of its items.\<close>

datatype json =
    JNull
  | JBool bool
  | JNum real
  | JStr string
  | JArr "json list"
  | JObj "(string \<times> json) list"

text \<open>The truth value of a Python value in a condition.\<close>

fun truthy :: "json \<Rightarrow> bool" where
  "truthy JNull = False"
| "truthy (JBool b) = b"
| "truthy (JNum x) = (x \<noteq> 0)"
| "truthy (JStr s) = (s \<noteq> [])"
| "truthy (JArr xs) = (xs \<noteq> [])"
| "truthy (JObj kvs) = (kvs \<noteq> [])"

text \<open>
  \<^verbatim>\<open>content[:50]\<close>, which the log line 723 evaluates: strings and lists can be
  sliced; for the other values the expression raises.
\<close>

fun sliceable :: "json \<Rightarrow> bool" where
  "sliceable (JStr s) = True"
| "sliceable (JArr xs) = True"
| "sliceable _ = False"

text \<open>
  The event dictionaries: \<^verbatim>\<open>token\<close> with its content and \<^verbatim>\<open>is_complete\<close> false;
  \<^verbatim>\<open>done\<close> with empty content and \<^verbatim>\<open>is_complete\<close> true; \<^verbatim>\<open>error\<close> with a message and
  \<^verbatim>\<open>is_complete\<close> true. The three messages of an error event are those of lines 633,
  673 and 690: the status of the answer, or the text of the exception.
\<close>

datatype stream_error = ApiError nat | TransferEncodingError exn | StreamError exn

datatype event = Token json | Done | Error stream_error

fun is_terminal :: "event \<Rightarrow> bool" where
  "is_terminal (Token c) = False"
| "is_terminal Done = True"
| "is_terminal (Error m) = True"

fun is_token :: "event \<Rightarrow> bool" where
  "is_token (Token c) = True"
| "is_token _ = False"

subsection \<open>\<^verbatim>\<open>_process_stream_line\<close> (lines 694-735)\<close>

text \<open>
  \<^verbatim>\<open>json.loads\<close> is a parameter: \<^const>\<open>None\<close> is \<^verbatim>\<open>JSONDecodeError\<close>. The handler of
  line 733 catches nothing else: \<^verbatim>\<open>parsed_data.get\<close> on a value that is no object,
  and the slice of a content that cannot be sliced, raise out of the function.
\<close>

definition data_prefix :: string where
  "data_prefix = ''data: ''"

definition process_stream_line :: "(string \<Rightarrow> json option) \<Rightarrow> string \<Rightarrow> exn + event option" where
  "process_stream_line json_loads line_text =
     (if line_text = [] then Inr None
      else if \<not> prefix data_prefix line_text then Inr None
      else if line_text = ''data: [DONE]'' then Inr (Some Done)
      else
        let data_part = drop 6 line_text
        in case json_loads data_part of
             None \<Rightarrow> Inr None
           | Some parsed_data \<Rightarrow>
               (case parsed_data of
                  JObj items \<Rightarrow>
                    if map_of items ''type'' = Some (JStr ''done'') then Inr (Some Done)
                    else (case map_of items ''text'' of
                            None \<Rightarrow> Inr None
                          | Some content \<Rightarrow>
                              if truthy content
                              then (if sliceable content then Inr (Some (Token content))
                                    else Inl TypeError)
                              else Inr None)
                | _ \<Rightarrow> Inl AttributeError))"

subsection \<open>\<^verbatim>\<open>generate_code_streaming\<close> (lines 574-692)\<close>

text \<open>
  The payload of lines 589-598. \<^verbatim>\<open>x or d\<close> is \<^verbatim>\<open>d\<close> when \<^verbatim>\<open>x\<close> is \<^verbatim>\<open>None\<close> or zero.
\<close>

definition int_or :: "int option \<Rightarrow> int \<Rightarrow> int" where
  "int_or x d = (case x of None \<Rightarrow> d | Some v \<Rightarrow> if v = 0 then d else v)"

definition float_or :: "real option \<Rightarrow> real \<Rightarrow> real" where
  "float_or x d = (case x of None \<Rightarrow> d | Some v \<Rightarrow> if v = 0 then d else v)"

definition streaming_payload :: "(string \<Rightarrow> int) \<Rightarrow> request \<Rightarrow> string \<Rightarrow> prefs option \<Rightarrow> payload" where
  "streaming_payload py_hash req uid user_preferences =
     \<lparr>user_id = py_hash uid mod 1000000,
      prompt = req_prompt req,
      model_type = model_mapping (req_model_type req),
      user_select_options = or_empty user_preferences,
      temperature = float_or (req_temperature req) 0.7,
      max_tokens = int_or (req_max_tokens req) 512,
      top_p = float_or (req_top_p req) 0.9\<rparr>"

text \<open>
  The answer to \<^verbatim>\<open>POST /generate/stream\<close>: the request raises, or there is a response
  with a status, the outcome of reading its text (read only when the status is not
  200), the chunks that \<^verbatim>\<open>iter_chunked\<close> delivers, and how the iteration ends: with
  the end of the body, or with an exception. The total timeout of 300 seconds
  (line 610) bounds the body, so the chunks are a list.
\<close>

record http_response =
  status :: nat
  text_failure :: "exn option"
  chunks :: "string list"
  read_failure :: "exn option"

datatype post_outcome = PostRaises exn | PostReturns http_response

text \<open>
  The \<^verbatim>\<open>for line in lines\<close> loop of lines 652-660 and how it is left: the lines are
  exhausted, a \<^verbatim>\<open>done\<close> event made the generator return, or a line raised.
\<close>

datatype loop_exit = Exhausted | Returned | Raised exn

fun process_lines :: "(string \<Rightarrow> json option) \<Rightarrow> string list \<Rightarrow> event list \<times> loop_exit" where
  "process_lines json_loads [] = ([], Exhausted)"
| "process_lines json_loads (line # rest) =
     (let line_text = strip line
      in if line_text \<noteq> [] \<and> line_text \<noteq> data_prefix then
           (case process_stream_line json_loads line_text of
              Inl e \<Rightarrow> ([], Raised e)
            | Inr None \<Rightarrow> process_lines json_loads rest
            | Inr (Some result) \<Rightarrow>
                if result = Done then ([result], Returned)
                else (case process_lines json_loads rest of
                        (events, how) \<Rightarrow> (result # events, how)))
         else process_lines json_loads rest)"

text \<open>
  The \<^verbatim>\<open>async for chunk\<close> loop of lines 643-667 with what follows it: an empty chunk
  and a chunk that does not decode are skipped; an exception of a line is caught by
  the handler of line 665, which goes on with the next chunk; an exception of the
  iteration itself gives the error event of line 671; the end of the body gives the
  \<^verbatim>\<open>done\<close> event of line 680. \<^verbatim>\<open>bytes.decode\<close> is a parameter: \<^const>\<open>None\<close> is
  \<^verbatim>\<open>UnicodeDecodeError\<close>.
\<close>

fun process_chunks ::
  "(string \<Rightarrow> string option) \<Rightarrow> (string \<Rightarrow> json option) \<Rightarrow> string list \<Rightarrow> exn option \<Rightarrow> event list" where
  "process_chunks decode json_loads [] ending =
     (case ending of
        Some e \<Rightarrow> [Error (TransferEncodingError e)]
      | None \<Rightarrow> [Done])"
| "process_chunks decode json_loads (chunk # rest) ending =
     (if chunk = [] then process_chunks decode json_loads rest ending
      else (case decode chunk of
              None \<Rightarrow> process_chunks decode json_loads rest ending
            | Some chunk_text \<Rightarrow>
                (case process_lines json_loads (split_lines chunk_text) of
                   (events, Returned) \<Rightarrow> events
                 | (events, _) \<Rightarrow> events @ process_chunks decode json_loads rest ending)))"

text \<open>
  The environment of one call: the decoders, the hash, the backend of the health
  probes and the answer of the backend to the payload.
\<close>

record environment =
  env_decode :: "string \<Rightarrow> string option"
  env_json_loads :: "string \<Rightarrow> json option"
  env_hash :: "string \<Rightarrow> int"
  env_backend :: "nat \<Rightarrow> probe"
  env_post :: "payload \<Rightarrow> post_outcome"

text \<open>
  The generator, run to its end: the events that it yields, in order, and the service
  and the world after it. Every exception inside the \<^verbatim>\<open>try\<close> of line 587 reaches the
  handler of line 686.
\<close>

definition generate_code_streaming ::
  "environment \<Rightarrow> service \<Rightarrow> world \<Rightarrow> request \<Rightarrow> string \<Rightarrow> prefs option
     \<Rightarrow> event list \<times> service \<times> world" where
  "generate_code_streaming env self w req uid user_preferences =
     (let payload = streaming_payload (env_hash env) req uid user_preferences
      in case (if \<not> is_connected self then connect (env_backend env) self w else (None, self, w)) of
           (Some e, self', w') \<Rightarrow> ([Error (StreamError e)], self', w')
         | (None, self', w') \<Rightarrow>
             if \<not> has_session self' then ([Error (StreamError AttributeError)], self', w')
             else (case env_post env payload of
                     PostRaises e \<Rightarrow> ([Error (StreamError e)], self', w')
                   | PostReturns response \<Rightarrow>
                       if status response \<noteq> 200 then
                         (case text_failure response of
                            Some e \<Rightarrow> ([Error (StreamError e)], self', w')
                          | None \<Rightarrow> ([Error (ApiError (status response))], self', w'))
                       else
                         (process_chunks (env_decode env) (env_json_loads env)
                            (chunks response) (read_failure response), self', w')))"

subsection \<open>\<^verbatim>\<open>generate_code_sync\<close> (lines 737-801)\<close>

text \<open>
  The loop of lines 750-763 over the events and how it is left: by \<^verbatim>\<open>break\<close> or the
  end of the events with the accumulated content, by the \<^verbatim>\<open>return\<close> of line 756 with
  the content of the error event, or by the \<^verbatim>\<open>TypeError\<close> of \<^verbatim>\<open>+=\<close> when the content of a
  token is no string.
\<close>

datatype collected = Accumulated string | FailedWith stream_error | CollectRaised exn

fun collect :: "event list \<Rightarrow> string \<Rightarrow> collected" where
  "collect [] accumulated_content = Accumulated accumulated_content"
| "collect (Token content # rest) accumulated_content =
     (case content of
        JStr s \<Rightarrow> collect rest (accumulated_content @ s)
      | _ \<Rightarrow> CollectRaised TypeError)"
| "collect (Done # rest) accumulated_content = Accumulated accumulated_content"
| "collect (Error m # rest) accumulated_content = FailedWith m"

text \<open>\<^verbatim>\<open>len(s.split())\<close>: the number of maximal runs of characters that are no space.\<close>

fun count_words :: "bool \<Rightarrow> string \<Rightarrow> nat" where
  "count_words in_word [] = 0"
| "count_words in_word (c # cs) =
     (if is_space c then count_words False cs
      else (if in_word then 0 else 1) + count_words True cs)"

text \<open>
  The two messages of a failure response: the content of the error event (line 759),
  or the text of the exception that the handler of line 792 caught (line 797).
\<close>

datatype failure = EventContent stream_error | GenerationFailed exn

text \<open>
  \<^verbatim>\<open>CodeGenerationResponse\<close> is declared in the schema module; these are the fields
  that the service sets. The processing time is the difference of two clock readings
  and is left out. The entries that lines 783-788 add for a personalised request are
  the field \<^verbatim>\<open>personalisation\<close>.
\<close>

record personalisation =
  personalized :: bool
  user_preferences_used :: prefs
  skill_level_used :: string
  code_style_used :: string

record response =
  success :: bool
  generated_code :: string
  response_explanation :: "string option"
  error_message :: "failure option"
  model_used :: string
  token_usage :: nat
  confidence_score :: "real option"
  personalisation :: "personalisation option"

definition failure_response :: "failure \<Rightarrow> response" where
  "failure_response msg =
     \<lparr>success = False, generated_code = [], response_explanation = None,
      error_message = Some msg, model_used = ''vllm'', token_usage = 0,
      confidence_score = None, personalisation = None\<rparr>"

text \<open>
  Lines 765-801 for the events of the stream. \<^verbatim>\<open>parsed_response["metadata"]\<close> raises
  \<^verbatim>\<open>KeyError\<close> when the key is missing, inside the \<^verbatim>\<open>try\<close> of line 748.
\<close>

definition sync_response :: "event list \<Rightarrow> prefs option \<Rightarrow> response" where
  "sync_response events user_preferences =
     (case collect events [] of
        FailedWith m \<Rightarrow> failure_response (EventContent m)
      | CollectRaised e \<Rightarrow> failure_response (GenerationFailed e)
      | Accumulated accumulated_content \<Rightarrow>
          (let parsed = parse_response accumulated_content
           in case metadata parsed of
               None \<Rightarrow> failure_response (GenerationFailed (KeyError ''metadata''))
             | Some md \<Rightarrow>
                 \<lparr>success = True,
                  generated_code = code parsed,
                  response_explanation = Some (explanation parsed),
                  error_message = None,
                  model_used = ''vllm'',
                  token_usage = count_words False accumulated_content,
                  confidence_score = Some (parsing_confidence md),
                  personalisation =
                    (if given user_preferences then
                       Some \<lparr>personalized = True,
                             user_preferences_used = or_empty user_preferences,
                             skill_level_used =
                               get_or (or_empty user_preferences) ''skill_level'' ''unknown'',
                             code_style_used =
                               get_or (or_empty user_preferences) ''code_style'' ''unknown''\<rparr>
                     else None)\<rparr>))"

definition generate_code_sync ::
  "environment \<Rightarrow> service \<Rightarrow> world \<Rightarrow> request \<Rightarrow> string \<Rightarrow> prefs option
     \<Rightarrow> response \<times> service \<times> world" where
  "generate_code_sync env self w req uid user_preferences =
     (case generate_code_streaming env self w req uid user_preferences of
        (events, self', w') \<Rightarrow> (sync_response events user_preferences, self', w'))"


section \<open>Notions of the statements\<close>

text \<open>A text that is empty or consists of white space only.\<close>

definition whitespace_only :: "string \<Rightarrow> bool" where
  "whitespace_only s \<longleftrightarrow> list_all is_space s"

text \<open>The openers that the loop of the bracket check leaves on its stack.\<close>

definition unmatched_openers :: "string \<Rightarrow> char list" where
  "unmatched_openers src = snd (bracket_loop src [] [])"

text \<open>The four categories of issues, one per check of the validator.\<close>

datatype category = SyntaxHeuristic | BracketBalance | QuoteBalance | ParseFailure

fun category_of :: "issue \<Rightarrow> category" where
  "category_of BadPrintQuotes = SyntaxHeuristic"
| "category_of BadCallQuotes = SyntaxHeuristic"
| "category_of UnfinishedNestedCall = SyntaxHeuristic"
| "category_of UnfinishedAssignedCall = SyntaxHeuristic"
| "category_of ClosersExceed = BracketBalance"
| "category_of (TypeMismatch l r) = BracketBalance"
| "category_of (Unclosed n) = BracketBalance"
| "category_of OddSingleQuotes = QuoteBalance"
| "category_of OddDoubleQuotes = QuoteBalance"
| "category_of (SyntaxErr msg) = ParseFailure"
| "category_of (ParseErr txt) = ParseFailure"

definition category_count :: "category \<Rightarrow> issue list \<Rightarrow> nat" where
  "category_count cat reported = length (filter (\<lambda>i. category_of i = cat) reported)"

text \<open>A parser that raises \<^verbatim>\<open>SyntaxError\<close> on the listed texts and accepts the others.\<close>

definition parser_rejecting :: "string list \<Rightarrow> string \<Rightarrow> parse_outcome" where
  "parser_rejecting bad src =
     (if src \<in> set bad then RaisesSyntaxError ''invalid syntax'' else Parsed)"

text \<open>A backend whose health probe answers 503 on every attempt.\<close>

definition failing_backend :: "nat \<Rightarrow> probe" where
  "failing_backend k = Status 503"

text \<open>The delays of the attempts \<^verbatim>\<open>first\<close>, ..., \<^verbatim>\<open>first + n - 1\<close>: two to the attempt.\<close>

definition backoff_delays :: "nat \<Rightarrow> nat \<Rightarrow> nat list" where
  "backoff_delays first n = map (\<lambda>attempt. 2 ^ attempt) [first ..< first + n]"

text \<open>
  What every call of \<^verbatim>\<open>connect\<close> ends with: success or \<^verbatim>\<open>ConnectionError\<close>; the
  counter and the flag after it; and the sleeps that it added.
\<close>

definition connect_post :: "service \<Rightarrow> world \<Rightarrow> exn option \<times> service \<times> world \<Rightarrow> bool" where
  "connect_post self w res \<longleftrightarrow>
     (case res of (r, self', w') \<Rightarrow>
        (r = None \<or> r = Some ConnectionError)
        \<and> (r = None \<longrightarrow> connection_retries self' = 0 \<and> is_connected self')
        \<and> (r \<noteq> None \<longrightarrow> max_retries self \<le> connection_retries self' \<and> \<not> is_connected self')
        \<and> has_session self'
        \<and> (\<exists>n. slept w' = slept w @ backoff_delays (connection_retries self + 1) n))"

text \<open>Inputs of the examples.\<close>

definition example_hash :: "string \<Rightarrow> int" where
  "example_hash s = int (length s)"

definition example_request :: request where
  "example_request =
     \<lparr>req_prompt = ''add two numbers'', req_context = None, req_model_type = CODE_GENERATION,
      req_max_tokens = None, req_temperature = Some 0, req_top_p = Some 0.5\<rparr>"

definition example_prefs :: prefs where
  "example_prefs =
     [(''skill_level'', ''beginner''), (''code_style'', ''detailed''), (''safety_level'', ''minimal'')]"

definition example_request_set :: request where
  "example_request_set =
     \<lparr>req_prompt = ''add two numbers'', req_context = None, req_model_type = CODE_GENERATION,
      req_max_tokens = Some 256, req_temperature = Some 0.2, req_top_p = None\<rparr>"

text \<open>
  A payload marked done, and what a payload carries under \<^verbatim>\<open>text\<close>; a result of
  \<^verbatim>\<open>_process_stream_line\<close> that is no event: \<^verbatim>\<open>None\<close> or an exception.
\<close>

fun marked_done :: "json \<Rightarrow> bool" where
  "marked_done (JObj items) = (map_of items ''type'' = Some (JStr ''done''))"
| "marked_done _ = False"

fun text_of :: "json \<Rightarrow> json option" where
  "text_of (JObj items) = map_of items ''text''"
| "text_of _ = None"

fun no_event :: "exn + event option \<Rightarrow> bool" where
  "no_event (Inr (Some ev)) = False"
| "no_event _ = True"

text \<open>
  The token contents of the lines of a body, in the order of arrival, each line taken
  by itself.
\<close>

definition line_token :: "(string \<Rightarrow> json option) \<Rightarrow> string \<Rightarrow> json list" where
  "line_token json_loads line =
     (let line_text = strip line
      in if line_text \<noteq> [] \<and> line_text \<noteq> data_prefix then
           (case process_stream_line json_loads line_text of
              Inr (Some (Token content)) \<Rightarrow> [content]
            | _ \<Rightarrow> [])
         else [])"

definition arrived_tokens ::
  "(string \<Rightarrow> string option) \<Rightarrow> (string \<Rightarrow> json option) \<Rightarrow> string list \<Rightarrow> json list" where
  "arrived_tokens decode json_loads body =
     concat (map (\<lambda>chunk.
        if chunk = [] then []
        else (case decode chunk of
                None \<Rightarrow> []
              | Some chunk_text \<Rightarrow> concat (map (line_token json_loads) (split_lines chunk_text))))
        body)"

text \<open>Payload texts of the examples, and a decoder that knows them.\<close>

definition dq :: string where
  "dq = [CHR 0x22]"

definition json_text_foo :: string where
  "json_text_foo = ''{'' @ dq @ ''text'' @ dq @ '': '' @ dq @ ''foo'' @ dq @ ''}''"

definition json_type_done :: string where
  "json_type_done = ''{'' @ dq @ ''type'' @ dq @ '': '' @ dq @ ''done'' @ dq @ ''}''"

definition json_text_list :: string where
  "json_text_list = ''{'' @ dq @ ''text'' @ dq @ '': ['' @ dq @ ''a'' @ dq @ '']}''"

definition json_text_five :: string where
  "json_text_five = ''{'' @ dq @ ''text'' @ dq @ '': 5}''"

definition example_loads :: "string \<Rightarrow> json option" where
  "example_loads s =
     (if s = json_text_foo then Some (JObj [(''text'', JStr ''foo'')])
      else if s = json_type_done then Some (JObj [(''type'', JStr ''done'')])
      else if s = json_text_list then Some (JObj [(''text'', JArr [JStr ''a''])])
      else if s = json_text_five then Some (JObj [(''text'', JNum 5)])
      else if s = ''5'' then Some (JNum 5)
      else None)"

text \<open>
  An environment whose backend is healthy and answers the payload with status 200 and
  the given chunks, and one whose body is the single line \<^verbatim>\<open>data: [DONE]\<close>.
\<close>

definition example_env :: "string list \<Rightarrow> environment" where
  "example_env body =
     \<lparr>env_decode = Some,
      env_json_loads = example_loads,
      env_hash = example_hash,
      env_backend = (\<lambda>k. Status 200),
      env_post = (\<lambda>p. PostReturns
                   \<lparr>status = 200, text_failure = None, chunks = body, read_failure = None\<rparr>)\<rparr>"

definition example_body :: "string list" where
  "example_body =
     [data_prefix @ json_text_foo @ [newline] @ ''5'' @ [newline],
      data_prefix @ json_text_foo @ [newline] @ ''data: [DONE]'' @ [newline]]"

text \<open>A decoder for ASCII chunks: a byte above 127 does not decode.\<close>

definition ascii_decode :: "string \<Rightarrow> string option" where
  "ascii_decode chunk = (if list_all (\<lambda>c. (of_char c :: nat) < 128) chunk then Some chunk else None)"

text \<open>
  The text of the example of the specification: an explanation line, then a fence
  with the language tag \<^verbatim>\<open>python\<close> around \<^verbatim>\<open>print(1)\<close>; and the same text with a fence
  without a tag.
\<close>

definition tagged_example :: string where
  "tagged_example =
     ''Explanation: does X'' @ [newline] @ fence @ ''python'' @ [newline] @ ''print(1)''
       @ [newline] @ fence"

definition untagged_example :: string where
  "untagged_example =
     ''Explanation: does X'' @ [newline] @ fence @ [newline] @ ''print(1)'' @ [newline] @ fence"

text \<open>
  Two texts with unbalanced brackets: an unfinished call that is assigned, and a stray
  closing parenthesis followed by a single quote and an opening parenthesis.
\<close>

definition unfinished_example :: string where
  "unfinished_example = ''x=f(1''"

definition stray_example :: string where
  "stray_example = '')'' @ [CHR 0x27] @ ''(''"

section \<open>Properties of the bracket check\<close>

lemma pair_facts:
  "(l, r) \<in> set brackets \<Longrightarrow>
     is_opener l \<and> is_closer r \<and> \<not> is_opener r \<and> map_of brackets l = Some r"
  by (auto simp: is_closer_def is_opener_def brackets_def)

lemma bracket_loop_acc:
  "bracket_loop cs st (pre @ acc) =
     (pre @ fst (bracket_loop cs st acc), snd (bracket_loop cs st acc))"
  by (induction cs st acc rule: bracket_loop.induct) (auto split: list.splits)

lemma bracket_loop_keeps:
  "acc \<noteq> [] \<Longrightarrow> fst (bracket_loop cs st acc) \<noteq> []"
  using bracket_loop_acc[of cs st acc "[]"] by simp

lemma bracket_loop_longer:
  "length acc \<le> length (fst (bracket_loop cs st acc))"
  using bracket_loop_acc[of cs st acc "[]"] by simp

lemma bracket_loop_filter:
  "bracket_loop (filter is_bracket cs) st acc = bracket_loop cs st acc"
  by (induction cs st acc rule: bracket_loop.induct)
     (auto simp: is_bracket_def split: list.splits)

text \<open>A nested word is passed without an issue and gives the stack back as it was.\<close>

lemma balanced_passes:
  "balanced u \<Longrightarrow> bracket_loop (u @ v) st acc = bracket_loop v st acc"
proof (induction u arbitrary: v st acc rule: balanced.induct)
  case bal_empty
  then show ?case by simp
next
  case (bal_wrap u l r)
  from pair_facts[OF bal_wrap.hyps(2)]
  have f: "is_opener l" "is_closer r" "\<not> is_opener r" "map_of brackets l = Some r"
    by auto
  have "bracket_loop ((l # u @ [r]) @ v) st acc = bracket_loop (u @ (r # v)) (l # st) acc"
    using f by simp
  also have "\<dots> = bracket_loop (r # v) (l # st) acc" by (rule bal_wrap.IH)
  also have "\<dots> = bracket_loop v st acc" using f by simp
  finally show ?case .
next
  case (bal_app u1 u2)
  then show ?case by simp
qed

text \<open>A pair of an opener and its closer can be put anywhere into a nested word.\<close>

lemma balanced_insert:
  "balanced x \<Longrightarrow> x = u @ v \<Longrightarrow> (l, r) \<in> set brackets \<Longrightarrow> balanced (u @ l # r # v)"
proof (induction x arbitrary: u v rule: balanced.induct)
  case bal_empty
  then have "u = []" "v = []" by auto
  moreover have "balanced (l # [] @ [r])"
    using balanced.bal_empty bal_empty.prems(2) by (rule balanced.bal_wrap)
  ultimately show ?case by simp
next
  case (bal_wrap x l' r')
  have lr: "balanced [l, r]"
    using balanced.bal_wrap[OF balanced.bal_empty bal_wrap.prems(2)] by simp
  have whole: "balanced (l' # x @ [r'])"
    using balanced.bal_wrap[OF bal_wrap.hyps(1) bal_wrap.hyps(2)] .
  show ?case
  proof (cases u)
    case Nil
    then have "v = l' # x @ [r']" using bal_wrap.prems(1) by simp
    then show ?thesis using Nil balanced.bal_app[OF lr whole] by simp
  next
    case (Cons a u')
    then have a: "a = l'" and rest: "x @ [r'] = u' @ v" using bal_wrap.prems(1) by auto
    show ?thesis
    proof (cases v rule: rev_cases)
      case Nil
      then have "u = l' # x @ [r']" using bal_wrap.prems(1) by simp
      then show ?thesis using Nil balanced.bal_app[OF whole lr] by simp
    next
      case (snoc v' b)
      then have "x = u' @ v'" "b = r'" using rest by auto
      then have "balanced (u' @ l # r # v')" using bal_wrap.IH bal_wrap.prems(2) by blast
      then have "balanced (l' # (u' @ l # r # v') @ [r'])"
        using bal_wrap.hyps(2) by (rule balanced.bal_wrap)
      then show ?thesis using Cons a snoc \<open>b = r'\<close> by simp
    qed
  qed
next
  case (bal_app x y)
  from bal_app.prems(1)
  consider t where "u = x @ t" "y = t @ v" | t where "x = u @ t" "v = t @ y"
    by (auto simp: append_eq_append_conv2)
  then show ?case
  proof cases
    case 1
    then have "balanced (t @ l # r # v)" using bal_app.IH(2) bal_app.prems(2) by blast
    with bal_app.hyps(1) have "balanced (x @ t @ l # r # v)" by (rule balanced.bal_app)
    then show ?thesis using 1 by simp
  next
    case 2
    then have "balanced (u @ l # r # t)" using bal_app.IH(1) bal_app.prems(2) by blast
    then have "balanced ((u @ l # r # t) @ y)" using bal_app.hyps(2) by (rule balanced.bal_app)
    then show ?thesis using 2 by simp
  qed
qed

text \<open>A run without an issue that empties the stack has read a nested word.\<close>

lemma passes_balanced:
  "bracket_loop u st [] = ([], []) \<Longrightarrow> \<forall>c\<in>set u. is_bracket c \<Longrightarrow> \<forall>c\<in>set st. is_opener c
   \<Longrightarrow> balanced (rev st @ u)"
proof (induction u arbitrary: st)
  case Nil
  then show ?case by (simp add: balanced.bal_empty)
next
  case (Cons c u)
  show ?case
  proof (cases "is_opener c")
    case True
    then have "bracket_loop u (c # st) [] = ([], [])" using Cons.prems(1) by simp
    moreover have "\<forall>x\<in>set u. is_bracket x" using Cons.prems(2) by simp
    moreover have "\<forall>x\<in>set (c # st). is_opener x" using Cons.prems(3) True by simp
    ultimately have "balanced (rev (c # st) @ u)" by (rule Cons.IH)
    then show ?thesis by simp
  next
    case False
    then have cl: "is_closer c" using Cons.prems(2) by (simp add: is_bracket_def)
    show ?thesis
    proof (cases st)
      case Nil
      then show ?thesis using Cons.prems(1) False cl by simp
    next
      case (Cons l st')
      have no_mis: "map_of brackets l = Some c"
      proof (rule ccontr)
        assume "map_of brackets l \<noteq> Some c"
        then have "bracket_loop u st' [TypeMismatch l c] = ([], [])"
          using Cons.prems(1) False cl Cons by simp
        then show False using bracket_loop_keeps[of "[TypeMismatch l c]" u st'] by simp
      qed
      then have run: "bracket_loop u st' [] = ([], [])"
        using Cons.prems(1) False cl Cons by simp
      have "balanced (rev st' @ u)"
        using Cons.IH[OF run] Cons.prems(2,3) Cons by simp
      moreover have "(l, c) \<in> set brackets" using no_mis by (rule map_of_SomeD)
      ultimately have "balanced (rev st' @ l # c # u)" using balanced_insert by blast
      then show ?thesis using Cons by simp
    qed
  qed
qed

lemma check_empty_iff:
  "check_bracket_balance src = [] \<longleftrightarrow> bracket_loop src [] [] = ([], [])"
  by (auto simp: check_bracket_balance_def split: prod.splits)

lemma check_iff_balanced:
  "check_bracket_balance src = [] \<longleftrightarrow> balanced (bracket_chars src)"
proof
  assume "check_bracket_balance src = []"
  then have "bracket_loop (filter is_bracket src) [] [] = ([], [])"
    by (simp add: check_empty_iff bracket_loop_filter)
  from passes_balanced[OF this] show "balanced (bracket_chars src)"
    by (simp add: bracket_chars_def)
next
  assume "balanced (bracket_chars src)"
  from balanced_passes[OF this, of "[]" "[]" "[]"] show "check_bracket_balance src = []"
    by (simp add: check_empty_iff bracket_chars_def bracket_loop_filter)
qed

lemma openers_pushed:
  "\<forall>c\<in>set os. is_opener c \<Longrightarrow> bracket_loop (os @ v) st acc = bracket_loop v (rev os @ st) acc"
  by (induction os arbitrary: st) auto

lemma loop_issue_kinds:
  "i \<in> set (fst (bracket_loop cs st acc)) \<Longrightarrow> \<forall>c\<in>set st. is_opener c \<Longrightarrow>
     i \<in> set acc \<or> i = ClosersExceed
     \<or> (\<exists>l r. i = TypeMismatch l r \<and> is_opener l \<and> is_closer r \<and> map_of brackets l \<noteq> Some r)"
proof (induction cs st acc rule: bracket_loop.induct)
  case (1 stack issues)
  then show ?case by simp
next
  case (2 c cs stack issues)
  show ?case
  proof (cases "is_opener c")
    case True
    then show ?thesis using 2 by simp
  next
    case no: False
    show ?thesis
    proof (cases "is_closer c")
      case False
      then show ?thesis using 2 no by simp
    next
      case cl: True
      show ?thesis
      proof (cases stack)
        case Nil
        then show ?thesis using 2 no cl by auto
      next
        case (Cons l stack')
        show ?thesis
        proof (cases "map_of brackets l = Some c")
          case True
          then show ?thesis using 2 no cl Cons by simp
        next
          case False
          have "i \<in> set (fst (bracket_loop cs stack' (issues @ [TypeMismatch l c])))"
            using "2.prems"(1) no cl Cons False by simp
          moreover have "\<forall>c\<in>set stack'. is_opener c" using "2.prems"(2) Cons by simp
          ultimately have "i \<in> set (issues @ [TypeMismatch l c]) \<or> i = ClosersExceed
            \<or> (\<exists>l r. i = TypeMismatch l r \<and> is_opener l \<and> is_closer r \<and> map_of brackets l \<noteq> Some r)"
            using "2.IH"(2)[OF no cl Cons] False by blast
          moreover have "is_opener l" using "2.prems"(2) Cons by simp
          ultimately show ?thesis using cl False by auto
        qed
      qed
    qed
  qed
qed

text \<open>
  C5. The bracket check reports at least one issue exactly when the bracket characters
  of the text are not properly nested, and no issue for a well-bracketed text. Every
  issue that it reports is a closing bracket on the empty stack, a closing bracket
  that does not match the opener pushed last, or the openers left at the end, reported
  with their number; openers in front of a nested text are reported with their count.
\<close>

theorem bracket_check_reports_iff_not_nested:
  "(check_bracket_balance src \<noteq> [] \<longleftrightarrow> \<not> balanced (bracket_chars src))
   \<and> (balanced (bracket_chars src) \<longrightarrow> check_bracket_balance src = [])
   \<and> (\<forall>i \<in> set (check_bracket_balance src).
         i = ClosersExceed
         \<or> (\<exists>l r. i = TypeMismatch l r \<and> is_opener l \<and> is_closer r \<and> map_of brackets l \<noteq> Some r)
         \<or> (i = Unclosed (length (unmatched_openers src)) \<and> unmatched_openers src \<noteq> []))
   \<and> ((\<forall>c \<in> set os. is_opener c) \<and> os \<noteq> [] \<and> balanced (bracket_chars v)
        \<longrightarrow> check_bracket_balance (os @ v) = [Unclosed (length os)])"
proof (intro conjI)
  show "check_bracket_balance src \<noteq> [] \<longleftrightarrow> \<not> balanced (bracket_chars src)"
    by (simp add: check_iff_balanced)
  show "balanced (bracket_chars src) \<longrightarrow> check_bracket_balance src = []"
    by (simp add: check_iff_balanced)
  show "\<forall>i \<in> set (check_bracket_balance src).
         i = ClosersExceed
         \<or> (\<exists>l r. i = TypeMismatch l r \<and> is_opener l \<and> is_closer r \<and> map_of brackets l \<noteq> Some r)
         \<or> (i = Unclosed (length (unmatched_openers src)) \<and> unmatched_openers src \<noteq> [])"
  proof
    fix i assume i: "i \<in> set (check_bracket_balance src)"
    obtain found st where run: "bracket_loop src [] [] = (found, st)" by (cases "bracket_loop src [] []")
    from i run consider "i \<in> set found" | "i = Unclosed (length st)" "st \<noteq> []"
      by (auto simp: check_bracket_balance_def split: if_splits)
    then show "i = ClosersExceed
         \<or> (\<exists>l r. i = TypeMismatch l r \<and> is_opener l \<and> is_closer r \<and> map_of brackets l \<noteq> Some r)
         \<or> (i = Unclosed (length (unmatched_openers src)) \<and> unmatched_openers src \<noteq> [])"
    proof cases
      case 1
      then have "i \<in> set (fst (bracket_loop src [] []))" using run by simp
      then show ?thesis using loop_issue_kinds[of i src "[]" "[]"] by auto
    next
      case 2
      then show ?thesis using run by (simp add: unmatched_openers_def)
    qed
  qed
  show "(\<forall>c \<in> set os. is_opener c) \<and> os \<noteq> [] \<and> balanced (bracket_chars v)
        \<longrightarrow> check_bracket_balance (os @ v) = [Unclosed (length os)]"
  proof (intro impI, elim conjE)
    assume os: "\<forall>c \<in> set os. is_opener c" "os \<noteq> []" and v: "balanced (bracket_chars v)"
    have "bracket_loop (os @ v) [] [] = bracket_loop v (rev os) []"
      using openers_pushed[OF os(1), of v "[]" "[]"] by simp
    also have "\<dots> = bracket_loop (bracket_chars v @ []) (rev os) []"
      by (simp add: bracket_chars_def bracket_loop_filter)
    also have "\<dots> = bracket_loop [] (rev os) []" using v by (rule balanced_passes)
    also have "\<dots> = ([], rev os)" by simp
    finally show "check_bracket_balance (os @ v) = [Unclosed (length os)]"
      using os(2) by (simp add: check_bracket_balance_def)
  qed
qed

theorem bracket_check_reports_iff_not_nested_witness:
  "check_bracket_balance ''f(a[0], {1: (2)})'' = []
   \<and> balanced (bracket_chars ''f(a[0], {1: (2)})'')
   \<and> check_bracket_balance ''f(a]'' = [TypeMismatch CHR ''('' CHR '']'']
   \<and> \<not> balanced (bracket_chars ''f(a]'')
   \<and> check_bracket_balance (''(['' @ ''{}()'') = [Unclosed 2]"
proof -
  have a: "check_bracket_balance ''f(a[0], {1: (2)})'' = []" by code_simp
  have b: "check_bracket_balance ''f(a]'' = [TypeMismatch CHR ''('' CHR '']'']" by code_simp
  have c: "\<forall>c \<in> set ''([''. is_opener c" by code_simp
  have d: "bracket_chars ''{}()'' = ''{}()''" by code_simp
  have "balanced (''{}'' @ ''()'')"
    by (intro balanced.bal_app)
       (use balanced.bal_wrap[OF balanced.bal_empty, of "CHR ''{''" "CHR ''}''"]
            balanced.bal_wrap[OF balanced.bal_empty, of "CHR ''(''" "CHR '')''"]
        in \<open>simp_all add: brackets_def\<close>)
  then have e: "balanced (bracket_chars ''{}()'')" using d by simp
  show ?thesis
    using bracket_check_reports_iff_not_nested[of "''f(a[0], {1: (2)})''" "''([''" "''{}()''"]
          bracket_check_reports_iff_not_nested[of "''f(a]''" "''([''" "''{}()''"]
          a b c e
    by simp
qed


section \<open>Properties of the validator\<close>

lemma strip_empty_iff: "strip s = [] \<longleftrightarrow> whitespace_only s"
proof
  assume "strip s = []"
  then have all: "\<forall>x\<in>set (dropWhile is_space s). is_space x"
    by (simp add: strip_def dropWhile_eq_Nil_conv)
  have "dropWhile is_space s = []"
  proof (rule ccontr)
    assume ne: "dropWhile is_space s \<noteq> []"
    then have "\<not> is_space (hd (dropWhile is_space s))" by (rule hd_dropWhile)
    moreover have "hd (dropWhile is_space s) \<in> set (dropWhile is_space s)" using ne by simp
    ultimately show False using all by blast
  qed
  then show "whitespace_only s"
    by (simp add: whitespace_only_def dropWhile_eq_Nil_conv list_all_iff)
next
  assume "whitespace_only s"
  then have "dropWhile is_space s = []"
    by (simp add: whitespace_only_def dropWhile_eq_Nil_conv list_all_iff)
  then show "strip s = []" unfolding strip_def by (simp only: rev.simps dropWhile.simps)
qed

lemma validate_issues:
  "validation_enabled self \<Longrightarrow> \<not> whitespace_only src \<Longrightarrow>
     issues (validate_code_chunk self ast_parse src) =
       check_basic_syntax src @ check_bracket_balance src @ check_quote_balance src
         @ check_ast_validity ast_parse src"
  unfolding validate_code_chunk_def Let_def
  apply (simp only: strip_empty_iff if_False simp_thms)
  apply (simp only: validation.simps)
  apply (cases "check_basic_syntax src = []"; cases "check_bracket_balance src = []";
         cases "check_quote_balance src = []"; cases "check_ast_validity ast_parse src = []")
  apply (simp_all only: if_True if_False simp_thms append_Nil append_Nil2 append_assoc)
  done

lemma validate_confidence:
  "validation_enabled self \<Longrightarrow> \<not> whitespace_only src \<Longrightarrow>
     confidence (validate_code_chunk self ast_parse src) =
       penalised_confidence (check_basic_syntax src \<noteq> []) (check_bracket_balance src \<noteq> [])
         (check_quote_balance src \<noteq> []) (check_ast_validity ast_parse src \<noteq> [])"
  unfolding validate_code_chunk_def Let_def
  apply (simp only: strip_empty_iff if_False simp_thms)
  apply (simp only: validation.simps)
  apply (cases "check_basic_syntax src = []"; cases "check_bracket_balance src = []";
         cases "check_quote_balance src = []"; cases "check_ast_validity ast_parse src = []")
  apply (simp_all only: if_True if_False simp_thms penalised_confidence_def)
  done

lemma validate_skipped:
  "\<not> validation_enabled self \<or> whitespace_only src \<Longrightarrow>
     validate_code_chunk self ast_parse src =
       \<lparr>valid = True, issues = [], confidence = 1, code_length = None, line_count = None\<rparr>"
proof -
  assume "\<not> validation_enabled self \<or> whitespace_only src"
  then have c: "\<not> validation_enabled self \<or> strip src = []"
    using strip_empty_iff by blast
  show ?thesis
    unfolding validate_code_chunk_def
    apply (simp only: c if_True)
    apply simp
    done
qed

lemma penalised_confidence_bounds:
  "0 \<le> penalised_confidence a b c d \<and> penalised_confidence a b c d \<le> 1"
  by (cases a; cases b; cases c; cases d) (simp_all add: penalised_confidence_def)

lemma penalised_confidence_mono:
  "(a \<longrightarrow> a') \<Longrightarrow> (b \<longrightarrow> b') \<Longrightarrow> (c \<longrightarrow> c') \<Longrightarrow> (d \<longrightarrow> d') \<Longrightarrow>
     penalised_confidence a' b' c' d' \<le> penalised_confidence a b c d"
  by (cases a; cases a'; cases b; cases b'; cases c; cases c'; cases d; cases d')
     (simp_all add: penalised_confidence_def)

lemma validate_valid_iff:
  "valid (validate_code_chunk self ast_parse src)
     \<longleftrightarrow> issues (validate_code_chunk self ast_parse src) = []"
proof (cases "\<not> validation_enabled self \<or> strip src = []")
  case True
  show ?thesis
    unfolding validate_code_chunk_def
    apply (simp only: True if_True)
    apply simp
    done
next
  case False
  show ?thesis
    unfolding validate_code_chunk_def Let_def
    apply (simp only: False if_False)
    apply (simp only: validation.simps length_0_conv)
    done
qed



section \<open>Properties of the connection\<close>

lemma backoff_delays_step:
  "[2 ^ first] @ backoff_delays (Suc first) n = backoff_delays first (Suc n)"
  by (simp add: backoff_delays_def upt_rec[of first])

lemma connect_post_holds: "connect_post self w (connect backend self w)"
proof (induction backend self w rule: connect.induct)
  case (1 backend self w)
  show ?case
  proof (cases "backend (probes_made w) = Status 200")
    case True
    have "slept w = slept w @ backoff_delays (connection_retries self + 1) 0"
      by (simp add: backoff_delays_def)
    then show ?thesis
      using True by (subst connect.simps) (auto simp: connect_post_def)
  next
    case fail: False
    show ?thesis
    proof (cases "connection_retries self + 1 < max_retries self")
      case True
      let ?self = "self\<lparr>has_session := True, is_connected := False,
                connection_retries := connection_retries self + 1\<rparr>"
      let ?w = "w\<lparr>probes_made := probes_made w + 1,
             slept := slept w @ [2 ^ (connection_retries self + 1)]\<rparr>"
      have ih: "connect_post ?self ?w (connect backend ?self ?w)"
        using "1.IH"[OF fail True] .
      have eq: "connect backend self w = connect backend ?self ?w"
        using fail True by (subst connect.simps) simp
      obtain r self' w' where res: "connect backend ?self ?w = (r, self', w')"
        by (cases "connect backend ?self ?w")
      from ih res obtain n where
        n: "slept w' = slept ?w @ backoff_delays (connection_retries ?self + 1) n"
        by (auto simp: connect_post_def)
      have "slept w' = slept w @ backoff_delays (connection_retries self + 1) (Suc n)"
        using n backoff_delays_step[of "connection_retries self + 1" n] by simp
      then have "\<exists>n. slept w' = slept w @ backoff_delays (connection_retries self + 1) n" ..
      then show ?thesis
        using ih res eq by (auto simp: connect_post_def)
    next
      case False
      have "slept w = slept w @ backoff_delays (connection_retries self + 1) 0"
        by (simp add: backoff_delays_def)
      then show ?thesis
        using fail False by (subst connect.simps) (auto simp: connect_post_def)
    qed
  qed
qed

lemma connect_three_failures:
  assumes "\<forall>k. backend k \<noteq> Status 200"
    and "connection_retries self = 0" and "max_retries self = 3"
  shows "connect backend self w =
           (Some ConnectionError,
            self\<lparr>has_session := True, is_connected := False, connection_retries := 3\<rparr>,
            w\<lparr>probes_made := probes_made w + 3, slept := slept w @ [2, 4]\<rparr>)"
  using assms
  apply (subst connect.simps, simp)
  apply (subst connect.simps, simp)
  apply (subst connect.simps, simp)
  done

text \<open>
  C1, as the code has it. Against a backend whose probe fails on every attempt, with
  the retry counter at zero and the maximum at 3, \<^verbatim>\<open>connect\<close> probes three times,
  sleeps 2 and then 4 seconds (two to the attempt, after the first and the second
  failure), and raises \<^verbatim>\<open>ConnectionError\<close> at the third failure, without a further
  sleep. Every call ends with success or with \<^verbatim>\<open>ConnectionError\<close>; it fails only with
  the counter at the maximum or above; every sleep is two to the number of the
  attempt; and a successful probe resets the counter to zero.
\<close>

theorem connect_backoff:
  "((\<forall>k. backend k \<noteq> Status 200) \<and> connection_retries self = 0 \<and> max_retries self = 3 \<longrightarrow>
      connect backend self w =
        (Some ConnectionError,
         self\<lparr>has_session := True, is_connected := False, connection_retries := 3\<rparr>,
         w\<lparr>probes_made := probes_made w + 3, slept := slept w @ [2, 4]\<rparr>))
   \<and> (fst (connect backend self w) \<noteq> None \<longrightarrow>
        fst (connect backend self w) = Some ConnectionError
        \<and> max_retries self \<le> connection_retries (fst (snd (connect backend self w))))
   \<and> (fst (connect backend self w) = None \<longrightarrow>
        connection_retries (fst (snd (connect backend self w))) = 0
        \<and> is_connected (fst (snd (connect backend self w))))
   \<and> (\<exists>n. slept (snd (snd (connect backend self w)))
            = slept w @ backoff_delays (connection_retries self + 1) n)"
proof -
  obtain r self' w' where res: "connect backend self w = (r, self', w')"
    by (cases "connect backend self w")
  have post: "connect_post self w (r, self', w')"
    using connect_post_holds[of self w backend] res by simp
  have first: "(\<forall>k. backend k \<noteq> Status 200) \<and> connection_retries self = 0 \<and> max_retries self = 3 \<longrightarrow>
      connect backend self w =
        (Some ConnectionError,
         self\<lparr>has_session := True, is_connected := False, connection_retries := 3\<rparr>,
         w\<lparr>probes_made := probes_made w + 3, slept := slept w @ [2, 4]\<rparr>)"
    using connect_three_failures by blast
  show ?thesis
    using first post unfolding res connect_post_def by auto
qed

theorem connect_backoff_witness:
  "(\<forall>k. failing_backend k \<noteq> Status 200)
   \<and> connection_retries new_service = 0 \<and> max_retries new_service = 3
   \<and> fst (connect failing_backend new_service new_world) = Some ConnectionError
   \<and> slept (snd (snd (connect failing_backend new_service new_world))) = [2, 4]
   \<and> probes_made (snd (snd (connect failing_backend new_service new_world))) = 3
   \<and> connection_retries (fst (snd (connect failing_backend new_service new_world))) = 3"
proof -
  have a: "\<forall>k. failing_backend k \<noteq> Status 200" by (simp add: failing_backend_def)
  have b: "connection_retries new_service = 0" "max_retries new_service = 3"
    by (simp_all add: new_service_def)
  have "connect failing_backend new_service new_world =
        (Some ConnectionError,
         new_service\<lparr>has_session := True, is_connected := False, connection_retries := 3\<rparr>,
         new_world\<lparr>probes_made := probes_made new_world + 3, slept := slept new_world @ [2, 4]\<rparr>)"
    using connect_backoff[of failing_backend new_service new_world] a b by blast
  then show ?thesis using a b by (simp add: new_world_def)
qed

text \<open>
  The claim as it is worded fails: with the maximum at 3 there is no sleep of 8
  seconds before the failure.
\<close>

theorem connect_sleeps_counterexample:
  "fst (connect failing_backend new_service new_world) = Some ConnectionError
   \<and> slept (snd (snd (connect failing_backend new_service new_world))) \<noteq> [2, 4, 8]"
  by code_simp

section \<open>Properties of the payloads\<close>

lemma not_given_empty: "\<not> given user_preferences \<Longrightarrow> or_empty user_preferences = []"
  by (auto simp: given_def or_empty_def split: option.splits)

lemma py_int_numeral: "py_int (numeral k) = numeral k"
  by (simp add: py_int_def)

text \<open>The three parameters for given levels, with the preference branches taken or not.\<close>

lemma decoding_parameters_layers:
  "(case decoding_parameters user_preferences tier of (t, n, p) \<Rightarrow> (t, real_of_int n, p))
     = spec_parameters user_preferences tier"
proof (cases "given user_preferences")
  case True
  show ?thesis
    unfolding decoding_parameters_def spec_parameters_def Let_def spec_skill_def spec_style_def
      spec_safety_def spec_baseline_def
    using True
    by (cases tier) (simp_all add: py_int_numeral)
next
  case False
  then have e: "or_empty user_preferences = []" by (rule not_given_empty)
  show ?thesis
    unfolding decoding_parameters_def spec_parameters_def Let_def spec_skill_def spec_style_def
      spec_safety_def spec_baseline_def e get_or_def
    using False
    by (cases tier) (simp_all add: py_int_numeral)
qed

text \<open>
  C8. For every request, optional preferences and complexity tier, the temperature,
  the token budget and the nucleus threshold of \<^verbatim>\<open>_prepare_vllm_payload\<close> are those
  of the layered rule: the baseline 0.3 / 400 / 0.8, then the skill level, the style
  and the safety level, and last the overlay of the complexity tier. The payload is
  returned whenever the prompt is built, and carries these three values.
\<close>

theorem prepare_vllm_payload_layered:
  "(case decoding_parameters user_prefs tier of (t, n, p) \<Rightarrow> (t, real_of_int n, p))
     = spec_parameters user_prefs tier
   \<and> (\<forall>pl. prepare_vllm_payload py_hash hook req tier uid user_prefs = Inr pl \<longrightarrow>
         (temperature pl, real_of_int (max_tokens pl), top_p pl) = spec_parameters user_prefs tier)
   \<and> ((\<exists>pl. prepare_vllm_payload py_hash hook req tier uid user_prefs = Inr pl)
        \<longleftrightarrow> (\<exists>p. build_enhanced_prompt hook req user_prefs = Inr p))"
proof -
  obtain t n p where dp: "decoding_parameters user_prefs tier = (t, n, p)"
    by (cases "decoding_parameters user_prefs tier")
  have sp: "spec_parameters user_prefs tier = (t, real_of_int n, p)"
    using decoding_parameters_layers[of user_prefs tier] dp by simp
  show ?thesis
    unfolding prepare_vllm_payload_def dp sp
    by (cases "build_enhanced_prompt hook req user_prefs") auto
qed

theorem prepare_vllm_payload_layered_witness:
  "spec_parameters (Some example_prefs) Complex = (0.576, 1200, 0.95)
   \<and> (\<exists>pl. prepare_vllm_payload example_hash ImportFails example_request Complex ''u1''
              (Some example_prefs) = Inr pl
            \<and> temperature pl = 0.576 \<and> max_tokens pl = 1200 \<and> top_p pl = 0.95)"
proof -
  note th = prepare_vllm_payload_layered[of "Some example_prefs" Complex example_hash ImportFails
              example_request "''u1''"]
  have sp: "spec_parameters (Some example_prefs) Complex = (0.576, 1200, 0.95)"
    by (simp add: spec_parameters_def spec_skill_def spec_style_def spec_safety_def
          spec_baseline_def example_prefs_def or_empty_def get_or_def)
  have "\<exists>p. build_enhanced_prompt ImportFails example_request (Some example_prefs) = Inr p"
    by (simp add: build_enhanced_prompt_def Let_def)
  with th obtain pl where
    pl: "prepare_vllm_payload example_hash ImportFails example_request Complex ''u1''
           (Some example_prefs) = Inr pl"
    by blast
  with th have "(temperature pl, real_of_int (max_tokens pl), top_p pl)
                  = spec_parameters (Some example_prefs) Complex"
    by blast
  with sp have "temperature pl = 0.576 \<and> max_tokens pl = 1200 \<and> top_p pl = 0.95"
    by simp
  with pl sp show ?thesis by blast
qed

lemma int_or_cases:
  "int_or None d = d" "v \<noteq> 0 \<Longrightarrow> int_or (Some v) d = v" "int_or (Some 0) d = d"
  by (simp_all add: int_or_def)

lemma float_or_cases:
  "float_or None d = d" "v \<noteq> 0 \<Longrightarrow> float_or (Some v) d = v" "float_or (Some 0) d = d"
  by (simp_all add: float_or_def)

lemma streaming_depends_on_post_of_payload:
  "env_post env (streaming_payload (env_hash env) req uid user_prefs) = outcome \<Longrightarrow>
     fst (generate_code_streaming (env\<lparr>env_post := \<lambda>p. outcome\<rparr>) self w req uid user_prefs)
       = fst (generate_code_streaming env self w req uid user_prefs)"
  unfolding generate_code_streaming_def Let_def
  by (cases "if \<not> is_connected self then connect (env_backend env) self w else (None, self, w)")
     (auto split: option.splits post_outcome.splits)

text \<open>
  C9, as the code has it. On the streaming path the decoding parameters of the
  payload are those of the request, with the fallbacks 512, 0.7 and 0.9 for a
  parameter that the request leaves unset; a parameter that the request sets to a
  value other than zero is forwarded as it is. The preferences are forwarded as
  \<^verbatim>\<open>user_select_options\<close> only: the three parameters do not depend on them. The events
  of the stream depend on the backend only through its answer to this payload.
\<close>

theorem streaming_payload_direct:
  "(req_max_tokens req = None \<longrightarrow>
      max_tokens (streaming_payload py_hash req uid user_prefs) = 512)
   \<and> (\<forall>v. req_max_tokens req = Some v \<and> v \<noteq> 0 \<longrightarrow>
         max_tokens (streaming_payload py_hash req uid user_prefs) = v)
   \<and> (req_temperature req = None \<longrightarrow>
        temperature (streaming_payload py_hash req uid user_prefs) = 0.7)
   \<and> (\<forall>v. req_temperature req = Some v \<and> v \<noteq> 0 \<longrightarrow>
         temperature (streaming_payload py_hash req uid user_prefs) = v)
   \<and> (req_top_p req = None \<longrightarrow> top_p (streaming_payload py_hash req uid user_prefs) = 0.9)
   \<and> (\<forall>v. req_top_p req = Some v \<and> v \<noteq> 0 \<longrightarrow>
         top_p (streaming_payload py_hash req uid user_prefs) = v)
   \<and> user_select_options (streaming_payload py_hash req uid user_prefs) = or_empty user_prefs
   \<and> prompt (streaming_payload py_hash req uid user_prefs) = req_prompt req
   \<and> (\<forall>other_prefs.
         temperature (streaming_payload py_hash req uid other_prefs)
           = temperature (streaming_payload py_hash req uid user_prefs)
         \<and> max_tokens (streaming_payload py_hash req uid other_prefs)
           = max_tokens (streaming_payload py_hash req uid user_prefs)
         \<and> top_p (streaming_payload py_hash req uid other_prefs)
           = top_p (streaming_payload py_hash req uid user_prefs))
   \<and> (\<forall>outcome. env_post env (streaming_payload (env_hash env) req uid user_prefs) = outcome \<longrightarrow>
         fst (generate_code_streaming (env\<lparr>env_post := \<lambda>p. outcome\<rparr>) self w req uid user_prefs)
           = fst (generate_code_streaming env self w req uid user_prefs))"
  using streaming_depends_on_post_of_payload[of env req uid user_prefs]
  by (simp add: streaming_payload_def int_or_cases float_or_cases)

theorem streaming_payload_direct_witness:
  "req_max_tokens example_request_set = Some 256 \<and> (256 :: int) \<noteq> 0
   \<and> req_temperature example_request_set = Some 0.2 \<and> (0.2 :: real) \<noteq> 0
   \<and> req_top_p example_request_set = None
   \<and> max_tokens (streaming_payload example_hash example_request_set ''u1'' (Some example_prefs)) = 256
   \<and> temperature (streaming_payload example_hash example_request_set ''u1'' (Some example_prefs)) = 0.2
   \<and> top_p (streaming_payload example_hash example_request_set ''u1'' (Some example_prefs)) = 0.9
   \<and> user_select_options (streaming_payload example_hash example_request_set ''u1'' (Some example_prefs))
       = example_prefs"
proof -
  note th = streaming_payload_direct[of example_request_set example_hash "''u1''" "Some example_prefs"]
  have r: "req_max_tokens example_request_set = Some 256"
    "req_temperature example_request_set = Some 0.2" "req_top_p example_request_set = None"
    by (simp_all add: example_request_set_def)
  have n: "(256 :: int) \<noteq> 0" "(0.2 :: real) \<noteq> 0" by simp_all
  have a: "max_tokens (streaming_payload example_hash example_request_set ''u1'' (Some example_prefs)) = 256"
    using th r(1) n(1) by blast
  have b: "temperature (streaming_payload example_hash example_request_set ''u1'' (Some example_prefs)) = 0.2"
    using th r(2) n(2) by blast
  have c: "top_p (streaming_payload example_hash example_request_set ''u1'' (Some example_prefs)) = 0.9"
    using th r(3) by blast
  have d: "user_select_options (streaming_payload example_hash example_request_set ''u1'' (Some example_prefs))
       = or_empty (Some example_prefs)"
    using th by blast
  show ?thesis using r n a b c d by (simp add: or_empty_def)
qed

text \<open>
  The claim as it is worded fails for a parameter that the request sets to zero: the
  request asks for temperature 0, and the payload carries the fallback 0.7.
\<close>

theorem streaming_payload_zero_counterexample:
  "req_temperature example_request = Some 0
   \<and> temperature (streaming_payload example_hash example_request ''u1'' None) = 0.7"
  by (simp add: example_request_def streaming_payload_def float_or_def)

section \<open>Properties of the stream\<close>

lemma done_line_is_prefixed: "prefix data_prefix ''data: [DONE]''"
  by (simp add: data_prefix_def)

lemma process_done_line: "process_stream_line json_loads ''data: [DONE]'' = Inr (Some Done)"
  by (simp add: process_stream_line_def data_prefix_def)

lemma process_payload:
  assumes "prefix data_prefix t" and "t \<noteq> ''data: [DONE]''" and "json_loads (drop 6 t) = Some p"
  shows "process_stream_line json_loads t =
           (case p of
              JObj items \<Rightarrow>
                if map_of items ''type'' = Some (JStr ''done'') then Inr (Some Done)
                else (case map_of items ''text'' of
                        None \<Rightarrow> Inr None
                      | Some content \<Rightarrow>
                          if truthy content
                          then (if sliceable content then Inr (Some (Token content))
                                else Inl TypeError)
                          else Inr None)
            | _ \<Rightarrow> Inl AttributeError)"
proof -
  have "t \<noteq> []" using assms(1) by (auto simp: data_prefix_def)
  then show ?thesis
    using assms by (simp add: process_stream_line_def Let_def)
qed

lemma process_marked_done:
  assumes "prefix data_prefix t" and "json_loads (drop 6 t) = Some p" and "marked_done p"
  shows "process_stream_line json_loads t = Inr (Some Done)"
proof (cases "t = ''data: [DONE]''")
  case True
  then show ?thesis by (simp only: process_done_line)
next
  case False
  from assms(3) obtain items where p: "p = JObj items"
    and d: "map_of items ''type'' = Some (JStr ''done'')"
    by (cases p) auto
  have eq: "process_stream_line json_loads t =
           (case p of
              JObj items \<Rightarrow>
                if map_of items ''type'' = Some (JStr ''done'') then Inr (Some Done)
                else (case map_of items ''text'' of
                        None \<Rightarrow> Inr None
                      | Some content \<Rightarrow>
                          if truthy content
                          then (if sliceable content then Inr (Some (Token content))
                                else Inl TypeError)
                          else Inr None)
            | _ \<Rightarrow> Inl AttributeError)"
    using assms(1) False assms(2) by (rule process_payload)
  show ?thesis unfolding eq p by (simp add: d)
qed

lemma process_text:
  assumes "prefix data_prefix t" and "t \<noteq> ''data: [DONE]''" and "json_loads (drop 6 t) = Some p"
    and "\<not> marked_done p" and "text_of p = Some (JStr s)" and "s \<noteq> []"
  shows "process_stream_line json_loads t = Inr (Some (Token (JStr s)))"
proof -
  from assms(5) obtain items where p: "p = JObj items"
    and tx: "map_of items ''text'' = Some (JStr s)"
    by (cases p) auto
  have nd: "(map_of items ''type'' = Some (JStr ''done'')) = False" using assms(4) p by simp
  have eq: "process_stream_line json_loads t =
           (case p of
              JObj items \<Rightarrow>
                if map_of items ''type'' = Some (JStr ''done'') then Inr (Some Done)
                else (case map_of items ''text'' of
                        None \<Rightarrow> Inr None
                      | Some content \<Rightarrow>
                          if truthy content
                          then (if sliceable content then Inr (Some (Token content))
                                else Inl TypeError)
                          else Inr None)
            | _ \<Rightarrow> Inl AttributeError)"
    using assms(1,2,3) by (rule process_payload)
  show ?thesis unfolding eq p using assms(6) by (simp add: nd tx)
qed

lemma payload_without_text:
  assumes "\<not> marked_done p"
    and "text_of p = None \<or> (\<exists>c. text_of p = Some c \<and> \<not> (truthy c \<and> sliceable c))"
  shows "no_event (case p of
              JObj items \<Rightarrow>
                if map_of items ''type'' = Some (JStr ''done'') then Inr (Some Done)
                else (case map_of items ''text'' of
                        None \<Rightarrow> Inr None
                      | Some content \<Rightarrow>
                          if truthy content
                          then (if sliceable content then Inr (Some (Token content))
                                else Inl TypeError)
                          else Inr None)
            | _ \<Rightarrow> Inl AttributeError)"
proof (cases p)
  case (JObj items)
  have nd: "map_of items ''type'' \<noteq> Some (JStr ''done'')" using assms(1) JObj by simp
  show ?thesis
  proof (cases "map_of items ''text''")
    case None
    then show ?thesis using JObj nd by simp
  next
    case (Some c)
    then have "\<not> (truthy c \<and> sliceable c)" using assms(2) JObj by simp
    then show ?thesis using JObj nd Some by auto
  qed
qed simp_all

lemma process_unprefixed:
  "t = [] \<or> \<not> prefix data_prefix t \<Longrightarrow> process_stream_line json_loads t = Inr None"
proof (cases "t = []")
  case True
  then show ?thesis by (simp add: process_stream_line_def)
next
  case False
  assume "t = [] \<or> \<not> prefix data_prefix t"
  with False have "\<not> prefix data_prefix t" by simp
  with False show ?thesis by (simp add: process_stream_line_def)
qed

lemma process_unparsed:
  assumes "prefix data_prefix t" and "t \<noteq> ''data: [DONE]''" and "json_loads (drop 6 t) = None"
  shows "process_stream_line json_loads t = Inr None"
proof -
  have "t \<noteq> []" using assms(1) by (auto simp: data_prefix_def)
  then show ?thesis using assms by (simp add: process_stream_line_def Let_def)
qed

lemma process_without_text:
  assumes "prefix data_prefix t" and "t \<noteq> ''data: [DONE]''" and "json_loads (drop 6 t) = Some p"
    and "\<not> marked_done p"
    and "text_of p = None \<or> (\<exists>c. text_of p = Some c \<and> \<not> (truthy c \<and> sliceable c))"
  shows "no_event (process_stream_line json_loads t)"
proof -
  have eq: "process_stream_line json_loads t =
           (case p of
              JObj items \<Rightarrow>
                if map_of items ''type'' = Some (JStr ''done'') then Inr (Some Done)
                else (case map_of items ''text'' of
                        None \<Rightarrow> Inr None
                      | Some content \<Rightarrow>
                          if truthy content
                          then (if sliceable content then Inr (Some (Token content))
                                else Inl TypeError)
                          else Inr None)
            | _ \<Rightarrow> Inl AttributeError)"
    using assms(1,2,3) by (rule process_payload)
  show ?thesis unfolding eq using assms(4,5) by (rule payload_without_text)
qed

lemma process_ignored:
  assumes "t = [] \<or> \<not> prefix data_prefix t
           \<or> (t \<noteq> ''data: [DONE]'' \<and> json_loads (drop 6 t) = None)
           \<or> (t \<noteq> ''data: [DONE]''
               \<and> (\<exists>p. json_loads (drop 6 t) = Some p \<and> \<not> marked_done p
                      \<and> (text_of p = None
                          \<or> (\<exists>c. text_of p = Some c \<and> \<not> (truthy c \<and> sliceable c)))))"
  shows "no_event (process_stream_line json_loads t)"
proof (cases "t = [] \<or> \<not> prefix data_prefix t")
  case True
  then have "process_stream_line json_loads t = Inr None" by (rule process_unprefixed)
  then show ?thesis by simp
next
  case False
  then have pre: "prefix data_prefix t" by simp
  from assms show ?thesis
  proof (elim disjE conjE exE)
    assume "t = []"
    then show ?thesis using False by simp
  next
    assume "\<not> prefix data_prefix t"
    then show ?thesis using pre by simp
  next
    assume "t \<noteq> ''data: [DONE]''" "json_loads (drop 6 t) = None"
    with pre have "process_stream_line json_loads t = Inr None" by (rule process_unparsed)
    then show ?thesis by simp
  next
    fix p
    assume "t \<noteq> ''data: [DONE]''" "json_loads (drop 6 t) = Some p" "\<not> marked_done p"
      "text_of p = None"
    then show ?thesis using pre process_without_text[of t json_loads p] by simp
  next
    fix p c
    assume h: "t \<noteq> ''data: [DONE]''" "json_loads (drop 6 t) = Some p" "\<not> marked_done p"
      "text_of p = Some c" "\<not> (truthy c \<and> sliceable c)"
    have "text_of p = None \<or> (\<exists>c. text_of p = Some c \<and> \<not> (truthy c \<and> sliceable c))"
      using h(4,5) by (intro disjI2 exI[of _ c] conjI)
    with pre h(1,2,3) show ?thesis by (rule process_without_text)
  qed
qed

lemma unheard_line_goes_on:
  assumes "no_event (process_stream_line json_loads (strip l))"
  shows "process_lines json_loads (l # ls) = process_lines json_loads ls
         \<or> (\<exists>e. process_lines json_loads (l # ls) = ([], Raised e))"
proof (cases "process_stream_line json_loads (strip l)")
  case (Inl e)
  then show ?thesis by (simp add: Let_def)
next
  case (Inr r)
  then have "r = None" using assms by (cases r) simp_all
  then show ?thesis using Inr by (simp add: Let_def)
qed

lemma chunk_goes_on:
  assumes "c \<noteq> []" and "decode c = Some chunk_text"
    and "process_lines json_loads (split_lines chunk_text) = (evs, how)" and "how \<noteq> Returned"
  shows "process_chunks decode json_loads (c # rest) ending
           = evs @ process_chunks decode json_loads rest ending"
  using assms by (cases how) simp_all

lemma undecodable_chunk_goes_on:
  "decode c = None \<Longrightarrow>
     process_chunks decode json_loads (c # rest) ending
       = process_chunks decode json_loads rest ending"
  by simp

text \<open>
  C3, as the code has it. A line equal to \<^verbatim>\<open>data: [DONE]\<close>, and a prefixed line whose
  payload is an object marked with type \<^verbatim>\<open>done\<close>, give a done event. A prefixed line
  whose payload is an object that is not marked done and carries a non-empty string
  under \<^verbatim>\<open>text\<close> gives a token event with exactly that string. A line that is empty,
  has no prefix, does not parse, or whose payload is not marked done and carries
  under \<^verbatim>\<open>text\<close> neither a non-empty string nor a non-empty array gives no event. A
  line without an event does not stop the stream: the lines go on with the next
  line, or, when the line raised, with the next chunk; a chunk that does not decode
  is passed over.
\<close>

theorem stream_line_classification:
  "process_stream_line json_loads ''data: [DONE]'' = Inr (Some Done)
   \<and> (prefix data_prefix t \<and> json_loads (drop 6 t) = Some p \<and> marked_done p \<longrightarrow>
        process_stream_line json_loads t = Inr (Some Done))
   \<and> (prefix data_prefix t \<and> t \<noteq> ''data: [DONE]'' \<and> json_loads (drop 6 t) = Some p
        \<and> \<not> marked_done p \<and> text_of p = Some (JStr s) \<and> s \<noteq> [] \<longrightarrow>
        process_stream_line json_loads t = Inr (Some (Token (JStr s))))
   \<and> (t = [] \<or> \<not> prefix data_prefix t
        \<or> (t \<noteq> ''data: [DONE]'' \<and> json_loads (drop 6 t) = None)
        \<or> (t \<noteq> ''data: [DONE]''
            \<and> (\<exists>q. json_loads (drop 6 t) = Some q \<and> \<not> marked_done q
                   \<and> (text_of q = None
                       \<or> (\<exists>c. text_of q = Some c \<and> \<not> (truthy c \<and> sliceable c))))) \<longrightarrow>
        no_event (process_stream_line json_loads t))
   \<and> (no_event (process_stream_line json_loads (strip l)) \<longrightarrow>
        process_lines json_loads (l # ls) = process_lines json_loads ls
        \<or> (\<exists>e. process_lines json_loads (l # ls) = ([], Raised e)))
   \<and> (chunk \<noteq> [] \<and> decode chunk = Some chunk_text
        \<and> process_lines json_loads (split_lines chunk_text) = (evs, how) \<and> how \<noteq> Returned \<longrightarrow>
        process_chunks decode json_loads (chunk # rest) ending
          = evs @ process_chunks decode json_loads rest ending)
   \<and> (decode chunk = None \<longrightarrow>
        process_chunks decode json_loads (chunk # rest) ending
          = process_chunks decode json_loads rest ending)"
proof (intro conjI impI)
  show "process_stream_line json_loads ''data: [DONE]'' = Inr (Some Done)"
    by (rule process_done_line)
  show "process_stream_line json_loads t = Inr (Some Done)"
    if "prefix data_prefix t \<and> json_loads (drop 6 t) = Some p \<and> marked_done p"
    using that process_marked_done by blast
  show "process_stream_line json_loads t = Inr (Some (Token (JStr s)))"
    if "prefix data_prefix t \<and> t \<noteq> ''data: [DONE]'' \<and> json_loads (drop 6 t) = Some p
        \<and> \<not> marked_done p \<and> text_of p = Some (JStr s) \<and> s \<noteq> []"
    using that process_text by blast
  show "no_event (process_stream_line json_loads t)"
    if "t = [] \<or> \<not> prefix data_prefix t
        \<or> (t \<noteq> ''data: [DONE]'' \<and> json_loads (drop 6 t) = None)
        \<or> (t \<noteq> ''data: [DONE]''
            \<and> (\<exists>q. json_loads (drop 6 t) = Some q \<and> \<not> marked_done q
                   \<and> (text_of q = None
                       \<or> (\<exists>c. text_of q = Some c \<and> \<not> (truthy c \<and> sliceable c)))))"
    using that by (rule process_ignored)
  show "process_lines json_loads (l # ls) = process_lines json_loads ls
        \<or> (\<exists>e. process_lines json_loads (l # ls) = ([], Raised e))"
    if "no_event (process_stream_line json_loads (strip l))"
    using that by (rule unheard_line_goes_on)
  show "process_chunks decode json_loads (chunk # rest) ending
          = evs @ process_chunks decode json_loads rest ending"
    if "chunk \<noteq> [] \<and> decode chunk = Some chunk_text
        \<and> process_lines json_loads (split_lines chunk_text) = (evs, how) \<and> how \<noteq> Returned"
    using that chunk_goes_on by blast
  show "process_chunks decode json_loads (chunk # rest) ending
          = process_chunks decode json_loads rest ending"
    if "decode chunk = None"
    using that by (rule undecodable_chunk_goes_on)
qed

theorem stream_line_classification_witness:
  "process_stream_line example_loads (data_prefix @ json_type_done) = Inr (Some Done)
   \<and> process_stream_line example_loads (data_prefix @ json_text_foo)
       = Inr (Some (Token (JStr ''foo'')))
   \<and> no_event (process_stream_line example_loads (data_prefix @ ''5''))
   \<and> (process_lines example_loads [data_prefix @ ''5''] = process_lines example_loads []
       \<or> (\<exists>e. process_lines example_loads [data_prefix @ ''5''] = ([], Raised e)))
   \<and> process_chunks ascii_decode example_loads (hd example_body # tl example_body) None
       = [Token (JStr ''foo'')] @ process_chunks ascii_decode example_loads (tl example_body) None
   \<and> process_chunks ascii_decode example_loads ([CHR 0x80] # example_body) None
       = process_chunks ascii_decode example_loads example_body None"
proof -
  note done_case = stream_line_classification[where json_loads = example_loads
      and t = "data_prefix @ json_type_done" and p = "JObj [(''type'', JStr ''done'')]",
      THEN conjunct2, THEN conjunct1, rule_format]
  note text_case = stream_line_classification[where json_loads = example_loads
      and t = "data_prefix @ json_text_foo" and p = "JObj [(''text'', JStr ''foo'')]"
      and s = "''foo''",
      THEN conjunct2, THEN conjunct2, THEN conjunct1, rule_format]
  note rest_case = stream_line_classification[where json_loads = example_loads
      and t = "data_prefix @ ''5''" and l = "data_prefix @ ''5''" and ls = "[]"
      and decode = ascii_decode and chunk = "hd example_body"
      and chunk_text = "hd example_body" and evs = "[Token (JStr ''foo'')]" and how = Exhausted
      and rest = "tl example_body" and ending = None,
      THEN conjunct2, THEN conjunct2, THEN conjunct2]
  note undec_case = stream_line_classification[where json_loads = example_loads
      and decode = ascii_decode and chunk = "[CHR 0x80]" and rest = example_body
      and ending = None,
      THEN conjunct2, THEN conjunct2, THEN conjunct2, THEN conjunct2, THEN conjunct2,
      THEN conjunct2, rule_format]
  have d1: "prefix data_prefix (data_prefix @ json_type_done)" by simp
  have d2: "example_loads (drop 6 (data_prefix @ json_type_done))
              = Some (JObj [(''type'', JStr ''done'')])" by code_simp
  have d3: "marked_done (JObj [(''type'', JStr ''done'')])" by simp
  have a: "process_stream_line example_loads (data_prefix @ json_type_done) = Inr (Some Done)"
    using d1 d2 d3 by (intro done_case conjI)
  have t1: "prefix data_prefix (data_prefix @ json_text_foo)" by simp
  have t2: "data_prefix @ json_text_foo \<noteq> ''data: [DONE]''" by code_simp
  have t3: "example_loads (drop 6 (data_prefix @ json_text_foo))
              = Some (JObj [(''text'', JStr ''foo'')])" by code_simp
  have t4: "\<not> marked_done (JObj [(''text'', JStr ''foo'')])" by simp
  have t5: "text_of (JObj [(''text'', JStr ''foo'')]) = Some (JStr ''foo'')" by simp
  have t6: "''foo'' \<noteq> []" by simp
  have b: "process_stream_line example_loads (data_prefix @ json_text_foo)
       = Inr (Some (Token (JStr ''foo'')))"
    using t1 t2 t3 t4 t5 t6 by (intro text_case conjI)
  have n1: "data_prefix @ ''5'' \<noteq> ''data: [DONE]''" by code_simp
  have n2: "example_loads (drop 6 (data_prefix @ ''5'')) = Some (JNum 5)" by code_simp
  have n3: "\<not> marked_done (JNum 5)" "text_of (JNum 5) = None" by simp_all
  have n4: "data_prefix @ ''5'' \<noteq> ''data: [DONE]''
            \<and> (\<exists>q. example_loads (drop 6 (data_prefix @ ''5'')) = Some q \<and> \<not> marked_done q
                   \<and> (text_of q = None
                       \<or> (\<exists>c. text_of q = Some c \<and> \<not> (truthy c \<and> sliceable c))))"
    using n1 n2 n3 by (intro conjI exI[of _ "JNum 5"] disjI1)
  have c: "no_event (process_stream_line example_loads (data_prefix @ ''5''))"
    by (rule rest_case[THEN conjunct1, rule_format]) (intro disjI2 n4)
  have s: "strip (data_prefix @ ''5'') = data_prefix @ ''5''" by code_simp
  have d: "process_lines example_loads [data_prefix @ ''5''] = process_lines example_loads []
       \<or> (\<exists>e. process_lines example_loads [data_prefix @ ''5''] = ([], Raised e))"
    by (rule rest_case[THEN conjunct2, THEN conjunct1, rule_format]) (simp only: s c)
  have e1: "hd example_body \<noteq> []" by code_simp
  have e2: "ascii_decode (hd example_body) = Some (hd example_body)" by code_simp
  have e3: "process_lines example_loads (split_lines (hd example_body))
              = ([Token (JStr ''foo'')], Exhausted)" by code_simp
  have e4: "Exhausted \<noteq> Returned" by simp
  have e: "process_chunks ascii_decode example_loads (hd example_body # tl example_body) None
       = [Token (JStr ''foo'')] @ process_chunks ascii_decode example_loads (tl example_body) None"
    using e1 e2 e3 e4
    by (intro rest_case[THEN conjunct2, THEN conjunct2, THEN conjunct1, rule_format] conjI)
  have u1: "ascii_decode [CHR 0x80] = None" by code_simp
  have f: "process_chunks ascii_decode example_loads ([CHR 0x80] # example_body) None
       = process_chunks ascii_decode example_loads example_body None"
    using u1 by (rule undec_case)
  show ?thesis using a b c d e f by (intro conjI)
qed

text \<open>
  The claim as it is worded fails on payloads whose \<^verbatim>\<open>text\<close> is no string. A payload
  that carries the array \<^verbatim>\<open>["a"]\<close> under \<^verbatim>\<open>text\<close> has neither a done mark nor a text,
  and gives a token event all the same, whose content is the array. A payload that
  carries the number 5 under \<^verbatim>\<open>text\<close> gives no event: the line raises
  \<^verbatim>\<open>TypeError\<close> in the log statement of line 723.
\<close>

theorem stream_line_counterexample:
  "example_loads json_text_list = Some (JObj [(''text'', JArr [JStr ''a''])])
   \<and> process_stream_line example_loads (data_prefix @ json_text_list)
       = Inr (Some (Token (JArr [JStr ''a''])))
   \<and> example_loads json_text_five = Some (JObj [(''text'', JNum 5)])
   \<and> process_stream_line example_loads (data_prefix @ json_text_five) = Inl TypeError"
  by code_simp

lemma line_events:
  "process_stream_line json_loads t = Inr (Some ev) \<Longrightarrow> ev = Done \<or> (\<exists>c. ev = Token c)"
  by (auto simp: process_stream_line_def Let_def
           split: if_splits option.splits json.splits)

lemma subseq_in_front: "subseq xs ys \<Longrightarrow> subseq xs (ys @ zs)"
  using list_emb_append_mono[of "(=)" xs ys "[]" zs] by simp

text \<open>
  The events of the lines of one chunk: token events, in the order of their lines, and
  a closing \<^verbatim>\<open>done\<close> exactly when the loop made the generator return.
\<close>

lemma process_lines_shape:
  "process_lines json_loads ls = (evs, how) \<Longrightarrow>
     \<exists>toks. subseq toks (concat (map (line_token json_loads) ls))
            \<and> evs = map Token toks @ (if how = Returned then [Done] else [])"
proof (induction ls arbitrary: evs how)
  case Nil
  then show ?case by auto
next
  case (Cons l ls)
  let ?t = "strip l"
  show ?case
  proof (cases "?t \<noteq> [] \<and> ?t \<noteq> data_prefix")
    case False
    then have "process_lines json_loads ls = (evs, how)"
      using Cons.prems by (auto simp: Let_def)
    from Cons.IH[OF this] obtain toks where
      "subseq toks (concat (map (line_token json_loads) ls))"
      "evs = map Token toks @ (if how = Returned then [Done] else [])" by blast
    moreover have "line_token json_loads l = []" using False by (auto simp: line_token_def Let_def)
    ultimately show ?thesis by auto
  next
    case heard: True
    show ?thesis
    proof (cases "process_stream_line json_loads ?t")
      case (Inl e)
      then have "evs = []" "how = Raised e" using Cons.prems heard by (auto simp: Let_def)
      then show ?thesis by auto
    next
      case (Inr r)
      show ?thesis
      proof (cases r)
        case None
        then have "process_lines json_loads ls = (evs, how)"
          using Cons.prems heard Inr by (auto simp: Let_def)
        from Cons.IH[OF this] obtain toks where
          "subseq toks (concat (map (line_token json_loads) ls))"
          "evs = map Token toks @ (if how = Returned then [Done] else [])" by blast
        moreover have "line_token json_loads l = []"
          using heard Inr None by (auto simp: line_token_def Let_def)
        ultimately show ?thesis by auto
      next
        case (Some ev)
        from line_events[of json_loads ?t ev] Inr Some
        consider "ev = Done" | c where "ev = Token c" by auto
        then show ?thesis
        proof cases
          case 1
          then have "evs = [Done]" "how = Returned"
            using Cons.prems heard Inr Some by (auto simp: Let_def)
          then show ?thesis by auto
        next
          case 2
          obtain evs' how' where rest: "process_lines json_loads ls = (evs', how')"
            by (cases "process_lines json_loads ls")
          then have e: "evs = Token c # evs'" "how = how'"
            using Cons.prems heard Inr Some 2 by (auto simp: Let_def)
          from Cons.IH[OF rest] obtain toks where
            toks: "subseq toks (concat (map (line_token json_loads) ls))"
            "evs' = map Token toks @ (if how' = Returned then [Done] else [])" by blast
          have lt: "line_token json_loads l = [c]"
            using heard Inr Some 2 by (auto simp: line_token_def Let_def)
          have "subseq (c # toks) (concat (map (line_token json_loads) (l # ls)))"
            using toks(1) lt by simp
          moreover have "evs = map Token (c # toks) @ (if how = Returned then [Done] else [])"
            using e toks(2) by simp
          ultimately show ?thesis by blast
        qed
      qed
    qed
  qed
qed

lemma process_chunks_shape:
  "\<exists>toks t. process_chunks decode json_loads body ending = map Token toks @ [t]
            \<and> is_terminal t
            \<and> subseq toks (arrived_tokens decode json_loads body)"
proof (induction body)
  case Nil
  show ?case
    by (cases ending) (auto simp: arrived_tokens_def)
next
  case (Cons chunk body)
  from Cons.IH obtain toks t where ih:
    "process_chunks decode json_loads body ending = map Token toks @ [t]"
    "is_terminal t" "subseq toks (arrived_tokens decode json_loads body)" by blast
  have later: "subseq toks (arrived_tokens decode json_loads (chunk # body))"
    using ih(3) list_emb_append2[of "(=)" toks "arrived_tokens decode json_loads body"]
    by (simp add: arrived_tokens_def)
  show ?case
  proof (cases "chunk = []")
    case True
    then show ?thesis using ih later by auto
  next
    case ne: False
    show ?thesis
    proof (cases "decode chunk")
      case None
      then show ?thesis using ih later ne by auto
    next
      case (Some chunk_text)
      obtain evs how where pl: "process_lines json_loads (split_lines chunk_text) = (evs, how)"
        by (cases "process_lines json_loads (split_lines chunk_text)")
      from process_lines_shape[OF pl] obtain toks1 where t1:
        "subseq toks1 (concat (map (line_token json_loads) (split_lines chunk_text)))"
        "evs = map Token toks1 @ (if how = Returned then [Done] else [])" by blast
      have here: "arrived_tokens decode json_loads (chunk # body)
                    = concat (map (line_token json_loads) (split_lines chunk_text))
                      @ arrived_tokens decode json_loads body"
        using ne Some by (simp add: arrived_tokens_def)
      show ?thesis
      proof (cases "how = Returned")
        case True
        then have "process_chunks decode json_loads (chunk # body) ending = map Token toks1 @ [Done]"
          using ne Some pl t1(2) by simp
        moreover have "subseq toks1 (arrived_tokens decode json_loads (chunk # body))"
          unfolding here using t1(1) by (rule subseq_in_front)
        ultimately show ?thesis by (intro exI[of _ toks1] exI[of _ Done]) simp
      next
        case False
        then have "process_chunks decode json_loads (chunk # body) ending
                     = evs @ process_chunks decode json_loads body ending"
          using ne Some pl by (cases how) simp_all
        then have "process_chunks decode json_loads (chunk # body) ending
                     = map Token (toks1 @ toks) @ [t]"
          using t1(2) False ih(1) by simp
        moreover have "subseq (toks1 @ toks) (arrived_tokens decode json_loads (chunk # body))"
          unfolding here using t1(1) ih(3) by (rule list_emb_append_mono)
        ultimately show ?thesis using ih(2) by blast
      qed
    qed
  qed
qed

lemma single_terminal:
  "evs = map Token toks @ [t] \<Longrightarrow> is_terminal t \<Longrightarrow>
     filter is_terminal evs = [t] \<and> last evs = t \<and> list_all is_token (butlast evs)"
  by (induction toks arbitrary: evs) (auto simp: list_all_iff)



section \<open>Properties of the repair\<close>

lemma loop_append:
  "bracket_loop cs st acc = (acc, st') \<Longrightarrow>
     bracket_loop (cs @ v) st acc = bracket_loop v st' acc"
proof (induction cs st acc rule: bracket_loop.induct)
  case (1 stack found)
  then show ?case by simp
next
  case (2 c cs stack found)
  show ?case
  proof (cases "is_opener c")
    case True
    then show ?thesis using 2 by simp
  next
    case no: False
    show ?thesis
    proof (cases "is_closer c")
      case False
      then show ?thesis using 2 no by simp
    next
      case cl: True
      show ?thesis
      proof (cases stack)
        case Nil
        then show ?thesis using "2.prems" no cl by simp
      next
        case (Cons l stack')
        show ?thesis
        proof (cases "map_of brackets l = Some c")
          case True
          then show ?thesis using 2 no cl Cons by simp
        next
          case False
          then have "bracket_loop cs stack' (found @ [TypeMismatch l c]) = (found, st')"
            using "2.prems" no cl Cons by simp
          then have "length (found @ [TypeMismatch l c]) \<le> length found"
            using bracket_loop_longer[of "found @ [TypeMismatch l c]" cs stack'] by simp
          then show ?thesis by simp
        qed
      qed
    qed
  qed
qed

lemma paren_pairs:
  "map_of brackets l = Some c \<Longrightarrow> (c = CHR '')'') = (l = CHR ''('')"
  by (auto simp: brackets_def split: if_splits)

lemma paren_count:
  "bracket_loop cs st [] = ([], st') \<Longrightarrow>
     count_list cs (CHR ''('') + count_list st (CHR ''('')
       = count_list cs (CHR '')'') + count_list st' (CHR ''('')"
proof (induction cs arbitrary: st)
  case Nil
  then show ?case by simp
next
  case (Cons c cs)
  show ?case
  proof (cases "is_opener c")
    case True
    then have run: "bracket_loop cs (c # st) [] = ([], st')" using Cons.prems by simp
    have "c \<noteq> CHR '')''" using True by (auto simp: is_opener_def brackets_def)
    then show ?thesis using Cons.IH[OF run] by auto
  next
    case no: False
    show ?thesis
    proof (cases "is_closer c")
      case False
      then have run: "bracket_loop cs st [] = ([], st')" using Cons.prems no by simp
      have "c \<noteq> CHR '')''" "c \<noteq> CHR ''(''"
        using False no by (auto simp: is_opener_def is_closer_def brackets_def)
      then show ?thesis using Cons.IH[OF run] by simp
    next
      case cl: True
      show ?thesis
      proof (cases st)
        case Nil
        then show ?thesis using Cons.prems no cl by simp
      next
        case st: (Cons l stack')
        have m: "map_of brackets l = Some c"
        proof (rule ccontr)
          assume "map_of brackets l \<noteq> Some c"
          then have "bracket_loop cs stack' [TypeMismatch l c] = ([], st')"
            using Cons.prems no cl st by simp
          then show False using bracket_loop_keeps[of "[TypeMismatch l c]" cs stack'] by simp
        qed
        then have run: "bracket_loop cs stack' [] = ([], st')"
          using Cons.prems no cl st by simp
        have "c \<noteq> CHR ''(''" using no by (auto simp: is_opener_def brackets_def)
        then show ?thesis using Cons.IH[OF run] st paren_pairs[OF m] by auto
      qed
    qed
  qed
qed

lemma closing_run:
  "k \<le> n \<Longrightarrow>
     bracket_loop (replicate k (CHR '')'')) (replicate n (CHR ''('')) []
       = ([], replicate (n - k) (CHR ''(''))"
proof (induction k arbitrary: n)
  case 0
  then show ?case by simp
next
  case (Suc k)
  then obtain m where n: "n = Suc m" and "k \<le> m" by (cases n) auto
  then show ?case using Suc.IH[of m]
    by (simp add: is_opener_def is_closer_def brackets_def)
qed

lemma count_list_replicate: "count_list (replicate n c) x = (if x = c then n else 0)"
  by (induction n) auto

lemma all_parens:
  "set st \<subseteq> {c} \<Longrightarrow> st = replicate (length st) c"
  by (induction st) auto

lemma syntax_issue_category:
  "i \<in> set (check_basic_syntax src) \<Longrightarrow> category_of i = SyntaxHeuristic"
proof -
  assume "i \<in> set (check_basic_syntax src)"
  then have "i \<in> snd ` set suspicious_patterns"
    by (auto simp: check_basic_syntax_def)
  then show ?thesis by (auto simp: suspicious_patterns_def)
qed

lemma quote_issue_category:
  "i \<in> set (check_quote_balance src) \<Longrightarrow> category_of i = QuoteBalance"
  by (auto simp: check_quote_balance_def Let_def split: if_splits)

lemma ast_issue_category:
  "i \<in> set (check_ast_validity ast_parse src) \<Longrightarrow> category_of i = ParseFailure"
  by (auto simp: check_ast_validity_def split: parse_outcome.splits)

lemma only_unclosed:
  assumes "issues (validate_code_chunk self ast_parse src) = [Unclosed n]"
  shows "check_bracket_balance src = [Unclosed n] \<and> check_quote_balance src = []"
proof -
  have on: "validation_enabled self \<and> \<not> whitespace_only src"
  proof (rule ccontr)
    assume "\<not> (validation_enabled self \<and> \<not> whitespace_only src)"
    then have "validate_code_chunk self ast_parse src =
        \<lparr>valid = True, issues = [], confidence = 1, code_length = None, line_count = None\<rparr>"
      using validate_skipped by blast
    then show False using assms by simp
  qed
  then have all: "check_basic_syntax src @ check_bracket_balance src @ check_quote_balance src
                    @ check_ast_validity ast_parse src = [Unclosed n]"
    using validate_issues[of self src ast_parse] assms by simp
  have cat: "\<And>i. i \<in> set (check_basic_syntax src) \<union> set (check_bracket_balance src)
                 \<union> set (check_quote_balance src) \<union> set (check_ast_validity ast_parse src)
               \<Longrightarrow> category_of i = BracketBalance"
  proof -
    fix i
    assume "i \<in> set (check_basic_syntax src) \<union> set (check_bracket_balance src)
                 \<union> set (check_quote_balance src) \<union> set (check_ast_validity ast_parse src)"
    then have "i \<in> set (check_basic_syntax src @ check_bracket_balance src
                 @ check_quote_balance src @ check_ast_validity ast_parse src)" by simp
    then have "i = Unclosed n" unfolding all by simp
    then show "category_of i = BracketBalance" by simp
  qed
  have s: "check_basic_syntax src = []"
  proof (cases "check_basic_syntax src")
    case (Cons i rest)
    then have "i \<in> set (check_basic_syntax src)" by simp
    then show ?thesis using cat[of i] syntax_issue_category[of i src] by simp
  qed simp
  have q: "check_quote_balance src = []"
  proof (cases "check_quote_balance src")
    case (Cons i rest)
    then have "i \<in> set (check_quote_balance src)" by simp
    then show ?thesis using cat[of i] quote_issue_category[of i src] by simp
  qed simp
  have a: "check_ast_validity ast_parse src = []"
  proof (cases "check_ast_validity ast_parse src")
    case (Cons i rest)
    then have "i \<in> set (check_ast_validity ast_parse src)" by simp
    then show ?thesis using cat[of i] ast_issue_category[of i ast_parse src] by simp
  qed simp
  show ?thesis using all s q a by simp
qed

lemma fix_step_prefix: "prefix s (fix_step s i)"
  by (cases i) (simp_all add: Let_def)

lemma suggest_fix_prefix: "prefix src (suggest_fix src reported)"
  unfolding suggest_fix_def
proof (induction reported arbitrary: src)
  case Nil
  then show ?case by simp
next
  case (Cons i reported)
  have "prefix src (fix_step src i)" by (rule fix_step_prefix)
  also have "prefix (fix_step src i) (foldl fix_step (fix_step src i) reported)" by (rule Cons.IH)
  finally show ?case by simp
qed

lemma ast_issues_fix_nothing:
  "foldl fix_step s (check_ast_validity ast_parse src) = s"
  by (simp add: check_ast_validity_def split: parse_outcome.splits)

lemma repair_parentheses:
  assumes "check_bracket_balance src = [Unclosed n]" and "set (unmatched_openers src) \<subseteq> {CHR ''(''}"
  shows "0 < n"
    and "suggest_fix src [Unclosed n] = src @ replicate n (CHR '')'')"
    and "k \<le> n \<Longrightarrow> check_bracket_balance (src @ replicate k (CHR '')''))
           = (if k = n then [] else [Unclosed (n - k)])"
proof -
  obtain found st where run: "bracket_loop src [] [] = (found, st)"
    by (cases "bracket_loop src [] []")
  have "Unclosed n \<notin> set found"
    using loop_issue_kinds[of "Unclosed n" src "[]" "[]"] run by auto
  with assms(1) run have f: "found = []" and st: "st \<noteq> []" "length st = n"
    by (auto simp: check_bracket_balance_def split: if_splits)
  from st show "0 < n" by auto
  have "set st \<subseteq> {CHR ''(''}" using assms(2) run by (simp add: unmatched_openers_def)
  then have rep: "st = replicate n (CHR ''('')" using all_parens[of st] st(2) by simp
  have run': "bracket_loop src [] [] = ([], replicate n (CHR ''(''))" using run f rep by simp
  from paren_count[OF run']
  have cnt: "count_list src (CHR ''('') = count_list src (CHR '')'') + n"
    by (simp add: count_list_replicate)
  have "count_list src (CHR ''('') > count_list src (CHR '')'')" using cnt \<open>0 < n\<close> by simp
  then show "suggest_fix src [Unclosed n] = src @ replicate n (CHR '')'')"
    using cnt by (simp add: suggest_fix_def Let_def)
  show "check_bracket_balance (src @ replicate k (CHR '')''))
           = (if k = n then [] else [Unclosed (n - k)])" if "k \<le> n"
  proof -
    have "bracket_loop (src @ replicate k (CHR '')'')) [] []
            = bracket_loop (replicate k (CHR '')'')) (replicate n (CHR ''('')) []"
      using run' by (rule loop_append)
    also have "\<dots> = ([], replicate (n - k) (CHR ''(''))" using that by (rule closing_run)
    finally show ?thesis using that by (auto simp: check_bracket_balance_def)
  qed
qed

lemma count_list_replicate_other: "x \<noteq> c \<Longrightarrow> count_list (s @ replicate n c) x = count_list s x"
  by (induction s) (simp_all add: count_list_replicate)

lemma print_example_issues:
  "issues (validate_code_chunk new_validator ast_parse ''print(1'')
     = [Unclosed 1] @ check_ast_validity ast_parse ''print(1''"
proof -
  have en: "validation_enabled new_validator" by (simp add: new_validator_def)
  have nb: "\<not> whitespace_only ''print(1''" by code_simp
  have s1: "check_basic_syntax ''print(1'' = []" by code_simp
  have s2: "check_bracket_balance ''print(1'' = [Unclosed 1]" by code_simp
  have s3: "check_quote_balance ''print(1'' = []" by code_simp
  show ?thesis
    using validate_issues[OF en nb, of ast_parse] by (simp only: s1 s2 s3 append_Nil)
qed




section \<open>Properties of the response parser\<close>

lemma parse_tagged:
  "parse_response tagged_example =
     \<lparr>explanation = ''Explanation: does X'',
      code = ''print(1)'' @ [newline, newline] @ ''python'' @ [newline] @ ''print(1)'',
      metadata = Some \<lparr>code_blocks_found = 2, has_explanation = True, parsing_confidence = 0.9\<rparr>\<rparr>"
  by code_simp

lemma parse_untagged:
  "parse_response untagged_example =
     \<lparr>explanation = ''Explanation: does X'',
      code = ''print(1)'',
      metadata = Some \<lparr>code_blocks_found = 1, has_explanation = True, parsing_confidence = 0.6\<rparr>\<rparr>"
  by code_simp

lemma blocks_tagged:
  "extract_code_blocks tagged_example = [''print(1)'', ''python'' @ [newline] @ ''print(1)'']"
  by code_simp

text \<open>
  C2 at the example of the specification. The fence with the tag \<^verbatim>\<open>python\<close> is found
  by both patterns of line 255: the first captures \<^verbatim>\<open>print(1)\<close>, the second captures
  the tag together with the code. The two blocks differ, so that neither is dropped
  as a duplicate, and the code of the result is the two blocks joined by a blank
  line, not \<^verbatim>\<open>print(1)\<close>. The explanation is as the example says; with a fence
  without a tag the code is \<^verbatim>\<open>print(1)\<close>.
\<close>

theorem parse_response_tagged_fence:
  "extract_code_blocks tagged_example = [''print(1)'', ''python'' @ [newline] @ ''print(1)'']
   \<and> code (parse_response tagged_example)
       = ''print(1)'' @ [newline, newline] @ ''python'' @ [newline] @ ''print(1)''
   \<and> code (parse_response tagged_example) \<noteq> ''print(1)''
   \<and> explanation (parse_response tagged_example) = ''Explanation: does X''
   \<and> code (parse_response untagged_example) = ''print(1)''
   \<and> explanation (parse_response untagged_example) = ''Explanation: does X''"
  unfolding parse_tagged parse_untagged blocks_tagged by simp

lemma parse_blank:
  "whitespace_only raw \<Longrightarrow> parse_response raw = \<lparr>explanation = [], code = [], metadata = None\<rparr>"
  by (simp add: parse_response_def strip_empty_iff)

lemma parse_not_blank:
  "\<not> whitespace_only raw \<Longrightarrow> metadata (parse_response raw) \<noteq> None"
proof -
  assume nb: "\<not> whitespace_only raw"
  then have "strip raw \<noteq> []" by (simp add: strip_empty_iff)
  moreover have "raw \<noteq> []" using nb by (auto simp: whitespace_only_def)
  ultimately show ?thesis by (simp add: parse_response_def Let_def)
qed

lemma sync_blank:
  assumes "collect events [] = Accumulated acc" and "whitespace_only acc"
  shows "sync_response events user_prefs = failure_response (GenerationFailed (KeyError ''metadata''))"
  using assms by (simp add: sync_response_def parse_blank)

lemma sync_not_blank:
  assumes "collect events [] = Accumulated acc" and "\<not> whitespace_only acc"
  shows "success (sync_response events user_prefs)"
proof -
  from parse_not_blank[OF assms(2)] obtain md where "metadata (parse_response acc) = Some md"
    by auto
  then show ?thesis using assms(1) by (simp add: sync_response_def Let_def)
qed



end
